theory Spec2Isabelle
  imports Main "HOL-Library.Multiset" "HOL-Library.Word"
begin

section \<open>JavaScript strings\<close>

text \<open>
  User names, e-mail addresses, passwords, header values and tokens are lists of
  characters. The whitespace set is the one of JavaScript's \<^verbatim>\<open>\s\<close> and of
  \<^verbatim>\<open>String.prototype.trim\<close>, restricted to the characters of the \<^typ>\<open>char\<close> type:
  tab, line feed, vertical tab, form feed, carriage return, space and no-break space.
  Both the request validators' \<^verbatim>\<open>trim()\<close> and the schema option \<^verbatim>\<open>trim: true\<close>
  strip this set from both ends. Of these strings the program checks lower bounds on
  the length only, and their length is the number of their characters.
\<close>

definition is_space :: "char \<Rightarrow> bool" where
  "is_space c = (c = CHR 0x09 \<or> c = CHR 0x0A \<or> c = CHR 0x0B \<or> c = CHR 0x0C \<or> c = CHR 0x0D
                 \<or> c = CHR 0x20 \<or> c = CHR 0xA0)"

definition trim :: "string \<Rightarrow> string" where
  "trim s = rev (dropWhile is_space (rev (dropWhile is_space s)))"

definition no_surrounding_space :: "string \<Rightarrow> bool" where
  "no_surrounding_space s = (s = [] \<or> (\<not> is_space (hd s) \<and> \<not> is_space (last s)))"

definition toLowerCase_char :: "char \<Rightarrow> char" where
  "toLowerCase_char c =
     (let n = (of_char c :: nat)
      in if (65 \<le> n \<and> n \<le> 90) \<or> (192 \<le> n \<and> n \<le> 222 \<and> n \<noteq> 215) then char_of (n + 32) else c)"

definition toLowerCase :: "string \<Rightarrow> string" where
  "toLowerCase s = map toLowerCase_char s"

text \<open>\<^verbatim>\<open>s.startsWith(p)\<close>.\<close>

definition startsWith :: "string \<Rightarrow> string \<Rightarrow> bool" where
  "startsWith s p = (take (length p) s = p)"

text \<open>\<^verbatim>\<open>s.split(c)\<close> for a one-character separator: never the empty list.\<close>

fun split_str :: "char \<Rightarrow> string \<Rightarrow> string list" where
  "split_str c [] = [[]]"
| "split_str c (x # xs) =
     (if x = c then [] # split_str c xs
      else (case split_str c xs of
              [] \<Rightarrow> [[x]]
            | w # ws \<Rightarrow> (x # w) # ws))"

text \<open>\<^verbatim>\<open>xs[i]\<close>: \<^verbatim>\<open>undefined\<close> out of range.\<close>

definition index_opt :: "'a list \<Rightarrow> nat \<Rightarrow> 'a option" where
  "index_opt xs i = (if i < length xs then Some (xs ! i) else None)"

text \<open>The validators read an absent field as the empty string.\<close>

definition toString :: "'a list option \<Rightarrow> 'a list" where
  "toString v = (case v of None \<Rightarrow> [] | Some s \<Rightarrow> s)"

text \<open>Decimal digits of a number, for \<^verbatim>\<open>String(n)\<close>.\<close>

function digits10 :: "nat \<Rightarrow> string" where
  "digits10 n = (if n < 10 then [char_of (48 + n)] else digits10 (n div 10) @ [char_of (48 + n mod 10)])"
  by pat_completeness auto
termination
  by (relation "measure id") auto

declare digits10.simps [simp del]

section \<open>Titles and descriptions\<close>

text \<open>
  The title and the description of a task are free text, and the program measures them
  twice with two different counts, so they are modelled as JavaScript has them: lists of
  UTF-16 code units. The whitespace set is the full one of \<^verbatim>\<open>\s\<close> and
  \<^verbatim>\<open>String.prototype.trim\<close>.
\<close>

type_synonym uchar = "16 word"

type_synonym ustring = "uchar list"

definition is_uspace :: "uchar \<Rightarrow> bool" where
  "is_uspace c =
     (let n = unat c
      in (9 \<le> n \<and> n \<le> 13) \<or> n = 32 \<or> n = 160 \<or> n = 5760 \<or> (8192 \<le> n \<and> n \<le> 8202)
         \<or> n = 8232 \<or> n = 8233 \<or> n = 8239 \<or> n = 8287 \<or> n = 12288 \<or> n = 65279)"

definition utrim :: "ustring \<Rightarrow> ustring" where
  "utrim s = rev (dropWhile is_uspace (rev (dropWhile is_uspace s)))"

definition no_surrounding_uspace :: "ustring \<Rightarrow> bool" where
  "no_surrounding_uspace s = (s = [] \<or> (\<not> is_uspace (hd s) \<and> \<not> is_uspace (last s)))"

text \<open>
  The schema's \<^verbatim>\<open>maxlength\<close> compares \<^verbatim>\<open>value.length\<close>, the number of code units,
  which is \<^const>\<open>length\<close>. The request validator's \<^verbatim>\<open>isLength\<close> compares
  \<^verbatim>\<open>str.length\<close> minus the number of variation selectors (U+FE0E, U+FE0F) minus the
  number of surrogate pairs, so that a character outside the basic plane counts once.
\<close>

fun surrogatePairs :: "ustring \<Rightarrow> nat" where
  "surrogatePairs (a # b # s) =
     (if 0xD800 \<le> a \<and> a \<le> 0xDBFF \<and> 0xDC00 \<le> b \<and> b \<le> 0xDFFF
      then Suc (surrogatePairs s) else surrogatePairs (b # s))"
| "surrogatePairs s = 0"

definition presentationSequences :: "ustring \<Rightarrow> nat" where
  "presentationSequences s = length (filter (\<lambda>c. c = 0xFE0F \<or> c = 0xFE0E) s)"

definition isLength_count :: "ustring \<Rightarrow> nat" where
  "isLength_count s = length s - presentationSequences s - surrogatePairs s"

text \<open>The code units of a text of Latin-1 characters, for writing texts down.\<close>

definition utf16 :: "string \<Rightarrow> ustring" where
  "utf16 s = map (\<lambda>c. word_of_nat (of_char c)) s"

section \<open>Data model\<close>

text \<open>
  Documents carry the fields of the two schemas. Object ids are natural numbers; instants
  are milliseconds since the epoch. A collection is the list of its documents in
  insertion order, and the database hands out fresh object ids from a counter.
\<close>

record task =
  task_id :: nat
  task_user :: nat
  title :: ustring
  description :: ustring
  completed :: bool
  createdAt :: nat
  updatedAt :: nat

record user =
  user_id :: nat
  username :: string
  email :: string
  password :: "string option"
  user_createdAt :: nat
  user_updatedAt :: nat

record db =
  users :: "user list"
  tasks :: "task list"
  next_oid :: nat

definition empty_db :: db where
  "empty_db = \<lparr>users = [], tasks = [], next_oid = 0\<rparr>"

text \<open>
  Request bodies. The title and the description of a task body are JSON strings or
  absent; the \<^verbatim>\<open>completed\<close> field, which no sanitiser touches, is a JSON boolean,
  number or string or absent. The password of a registration or login body, which no
  sanitiser touches either, is a JSON boolean, number or string; the other fields of
  the two authentication bodies are strings, an absent field being read as the empty
  string by the validators.
\<close>

datatype jval = JBool bool | JNum int | JStr string

record task_body =
  body_title :: "ustring option"
  body_description :: "ustring option"
  body_completed :: "jval option"
  body_user :: "nat option"

record register_body =
  reg_username :: string
  reg_email :: string
  reg_password :: jval

record login_body =
  login_email :: string
  login_password :: jval

text \<open>What a handler sends: the status and the JSON body.\<close>

datatype json_body =
    Message string
  | TaskDoc task
  | TaskDocs "task list"
  | AuthOk string string nat string string

type_synonym response = "nat \<times> json_body"

datatype mongoose_error = ValidationError | CastError | DuplicateKey

section \<open>Libraries the handlers call\<close>

text \<open>
  The functions of the libraries whose results the handlers only pass on are parameters:
  the e-mail check and normaliser of the validator, the password hash, the signing,
  decoding and signature check of tokens, the server's signing key, the e-mail pattern of
  the user schema, and the cast of a URL parameter to an object id.
\<close>

record jwt_payload =
  jwt_id :: nat
  jwt_iat :: nat
  jwt_exp :: nat

record env =
  isEmail :: "string \<Rightarrow> bool"
  normalizeEmail :: "string \<Rightarrow> string"
  bcrypt_hash :: "string \<Rightarrow> string \<Rightarrow> string"
  bcrypt_compare :: "string \<Rightarrow> string \<Rightarrow> bool"
  jwt_encode :: "jwt_payload \<Rightarrow> string \<Rightarrow> string"
  jwt_decode :: "string \<Rightarrow> jwt_payload option"
  jwt_signature_ok :: "string \<Rightarrow> string \<Rightarrow> bool"
  JWT_SECRET :: string
  email_match :: "string \<Rightarrow> bool"
  castObjectId :: "string \<Rightarrow> nat option"

section \<open>The task model\<close>

text \<open>
  The task schema: \<^verbatim>\<open>title\<close> is required (a non-empty string), trimmed, at most 200
  code units; \<^verbatim>\<open>description\<close> is trimmed, at most 1000 code units.
\<close>

definition task_valid :: "task \<Rightarrow> bool" where
  "task_valid t = (title t \<noteq> [] \<and> length (title t) \<le> 200 \<and> length (description t) \<le> 1000)"

text \<open>
  \<^verbatim>\<open>Task.create\<close>: the setters trim the strings, the document is validated, and a valid
  document is inserted under a fresh id with both timestamps set to the current instant.
\<close>

definition Task_create :: "nat \<Rightarrow> db \<Rightarrow> nat \<Rightarrow> ustring \<Rightarrow> ustring \<Rightarrow> bool \<Rightarrow> mongoose_error + (db \<times> task)" where
  "Task_create now d owner ttl descr flag =
     (let t = \<lparr>task_id = next_oid d, task_user = owner, title = utrim ttl,
                description = utrim descr, completed = flag, createdAt = now, updatedAt = now\<rparr>
      in if \<not> task_valid t then Inl ValidationError
         else Inr (d\<lparr>tasks := tasks d @ [t], next_oid := Suc (next_oid d)\<rparr>, t))"

text \<open>\<^verbatim>\<open>Task.find({ user })\<close>: the documents of one owner, in insertion order.\<close>

definition Task_find :: "db \<Rightarrow> nat \<Rightarrow> task list" where
  "Task_find d owner = filter (\<lambda>t. task_user t = owner) (tasks d)"

text \<open>
  \<^verbatim>\<open>.sort({ createdAt: -1 })\<close>: descending by creation instant; documents with equal
  instants keep their order.
\<close>

fun insert_desc :: "task \<Rightarrow> task list \<Rightarrow> task list" where
  "insert_desc t [] = [t]"
| "insert_desc t (x # xs) = (if createdAt x \<le> createdAt t then t # x # xs else x # insert_desc t xs)"

fun sort_createdAt_desc :: "task list \<Rightarrow> task list" where
  "sort_createdAt_desc [] = []"
| "sort_createdAt_desc (t # ts) = insert_desc t (sort_createdAt_desc ts)"

text \<open>
  \<^verbatim>\<open>Task.findOne({ _id, user })\<close>: the id of the URL is cast first (a string that is no
  object id makes the query throw), then one lookup filters on both fields.
\<close>

definition Task_findOne :: "env \<Rightarrow> db \<Rightarrow> string \<Rightarrow> nat \<Rightarrow> mongoose_error + task option" where
  "Task_findOne e d ident owner =
     (case castObjectId e ident of
        None \<Rightarrow> Inl CastError
      | Some i \<Rightarrow> Inr (find (\<lambda>t. task_id t = i \<and> task_user t = owner) (tasks d)))"

fun replace_first :: "('a \<Rightarrow> bool) \<Rightarrow> 'a \<Rightarrow> 'a list \<Rightarrow> 'a list" where
  "replace_first P y [] = []"
| "replace_first P y (x # xs) = (if P x then y # xs else x # replace_first P y xs)"

fun remove_first :: "('a \<Rightarrow> bool) \<Rightarrow> 'a list \<Rightarrow> 'a list" where
  "remove_first P [] = []"
| "remove_first P (x # xs) = (if P x then xs else x # remove_first P xs)"

text \<open>
  The casts of the \<^verbatim>\<open>Boolean\<close> schema type, and the assignments of the update handler:
  a field is assigned only when the body has it.
\<close>

definition cast_boolean :: "jval \<Rightarrow> bool option" where
  "cast_boolean v =
     (case v of
        JBool b \<Rightarrow> Some b
      | JNum n \<Rightarrow> (if n = 1 then Some True else if n = 0 then Some False else None)
      | JStr s \<Rightarrow> (if s = ''true'' \<or> s = ''1'' \<or> s = ''yes'' then Some True
                   else if s = ''false'' \<or> s = ''0'' \<or> s = ''no'' then Some False
                   else None))"

definition assign_fields :: "ustring option \<Rightarrow> ustring option \<Rightarrow> jval option \<Rightarrow> task \<Rightarrow> mongoose_error + task" where
  "assign_fields ttl descr flag t =
     (let t1 = (case ttl of None \<Rightarrow> t | Some v \<Rightarrow> t\<lparr>title := utrim v\<rparr>);
          t2 = (case descr of None \<Rightarrow> t1 | Some v \<Rightarrow> t1\<lparr>description := utrim v\<rparr>)
      in case flag of
           None \<Rightarrow> Inr t2
         | Some c \<Rightarrow> (case cast_boolean c of None \<Rightarrow> Inl CastError | Some b \<Rightarrow> Inr (t2\<lparr>completed := b\<rparr>)))"

text \<open>
  \<^verbatim>\<open>task.save()\<close>: validates the document; a document that was modified gets a new
  \<^verbatim>\<open>updatedAt\<close> and replaces the stored one with its id. A stored document
  satisfies the validators already, so only an assigned field can make the validation
  fail. When it fails, \<^verbatim>\<open>save\<close> throws and nothing is written.
\<close>

definition Task_save :: "nat \<Rightarrow> db \<Rightarrow> task \<Rightarrow> task \<Rightarrow> mongoose_error + (db \<times> task)" where
  "Task_save now d old new =
     (if \<not> task_valid new then Inl ValidationError
      else let t = (if new = old then new else new\<lparr>updatedAt := now\<rparr>)
           in Inr (d\<lparr>tasks := replace_first (\<lambda>x. task_id x = task_id t) t (tasks d)\<rparr>, t))"

text \<open>\<^verbatim>\<open>task.deleteOne()\<close>: removes the stored document with the id.\<close>

definition Task_deleteOne :: "db \<Rightarrow> task \<Rightarrow> db" where
  "Task_deleteOne d t = d\<lparr>tasks := remove_first (\<lambda>x. task_id x = task_id t) (tasks d)\<rparr>"

section \<open>Request validation of the task routes\<close>

text \<open>
  Each chain sanitises its field and collects the messages of the validators that fail;
  the handler answers with the first message of all chains, in the order of the chains.
  A chain marked \<^verbatim>\<open>optional()\<close> is skipped when the field is absent. The bounds
  are those of \<^verbatim>\<open>isLength\<close>, in its count.
\<close>

definition create_title_value :: "ustring option \<Rightarrow> ustring" where
  "create_title_value v = utrim (toString v)"

definition create_title_errors :: "ustring option \<Rightarrow> string list" where
  "create_title_errors v =
     (if create_title_value v = [] then [''Task title is required''] else [])
     @ (if isLength_count (create_title_value v) > 200 then [''Title cannot exceed 200 characters''] else [])"

definition update_title_value :: "ustring option \<Rightarrow> ustring option" where
  "update_title_value v = map_option utrim v"

definition update_title_errors :: "ustring option \<Rightarrow> string list" where
  "update_title_errors v =
     (case update_title_value v of
        None \<Rightarrow> []
      | Some s \<Rightarrow> (if s = [] then [''Title cannot be empty''] else [])
                  @ (if isLength_count s > 200 then [''Title cannot exceed 200 characters''] else []))"

definition description_value :: "ustring option \<Rightarrow> ustring option" where
  "description_value v = map_option utrim v"

definition description_errors :: "ustring option \<Rightarrow> string list" where
  "description_errors v =
     (case description_value v of
        None \<Rightarrow> []
      | Some s \<Rightarrow> (if isLength_count s > 1000 then [''Description cannot exceed 1000 characters''] else []))"

text \<open>\<^verbatim>\<open>isBoolean()\<close> accepts the strings true, false, 1 and 0 after \<^verbatim>\<open>String(value)\<close>.\<close>

definition stringify :: "jval \<Rightarrow> string" where
  "stringify v =
     (case v of
        JBool b \<Rightarrow> (if b then ''true'' else ''false'')
      | JNum n \<Rightarrow> (if n < 0 then CHR ''-'' # digits10 (nat (- n)) else digits10 (nat n))
      | JStr s \<Rightarrow> s)"

definition isBoolean :: "string \<Rightarrow> bool" where
  "isBoolean s = (s = ''true'' \<or> s = ''false'' \<or> s = ''1'' \<or> s = ''0'')"

definition completed_errors :: "jval option \<Rightarrow> string list" where
  "completed_errors v =
     (case v of
        None \<Rightarrow> []
      | Some c \<Rightarrow> (if isBoolean (stringify c) then [] else [''Completed must be true or false'']))"

text \<open>The messages of the chains of the two routes, in the order of the chains.\<close>

definition create_errors :: "task_body \<Rightarrow> string list" where
  "create_errors b = create_title_errors (body_title b) @ description_errors (body_description b)"

definition update_errors :: "task_body \<Rightarrow> string list" where
  "update_errors b = update_title_errors (body_title b) @ description_errors (body_description b)
                     @ completed_errors (body_completed b)"

section \<open>The task handlers\<close>

text \<open>
  Each handler runs for the user that \<^verbatim>\<open>protect\<close> resolved, at the instant \<open>now\<close>, and
  returns the database and the response.
\<close>

text \<open>\<^verbatim>\<open>GET /api/tasks\<close>\<close>

definition get_tasks :: "db \<Rightarrow> user \<Rightarrow> db \<times> response" where
  "get_tasks d u = (d, 200, TaskDocs (sort_createdAt_desc (Task_find d (user_id u))))"

text \<open>\<^verbatim>\<open>POST /api/tasks\<close>; \<^verbatim>\<open>description || ''\<close> is the empty string for an absent field.\<close>

definition post_task :: "nat \<Rightarrow> db \<Rightarrow> user \<Rightarrow> task_body \<Rightarrow> db \<times> response" where
  "post_task now d u b =
     (let errors = create_errors b
      in if errors \<noteq> [] then (d, 400, Message (hd errors))
         else (case Task_create now d (user_id u) (create_title_value (body_title b))
                      (case description_value (body_description b) of None \<Rightarrow> [] | Some s \<Rightarrow> s)
                      False of
                 Inl err \<Rightarrow> (d, 500, Message ''Server error while creating task'')
               | Inr (d', t) \<Rightarrow> (d', 201, TaskDoc t)))"

text \<open>\<^verbatim>\<open>PUT /api/tasks/:id\<close>\<close>

definition put_task :: "env \<Rightarrow> nat \<Rightarrow> db \<Rightarrow> user \<Rightarrow> string \<Rightarrow> task_body \<Rightarrow> db \<times> response" where
  "put_task e now d u ident b =
     (let errors = update_errors b
      in if errors \<noteq> [] then (d, 400, Message (hd errors))
         else (case Task_findOne e d ident (user_id u) of
                 Inl err \<Rightarrow> (d, 500, Message ''Server error while updating task'')
               | Inr None \<Rightarrow> (d, 404, Message ''Task not found'')
               | Inr (Some t) \<Rightarrow>
                   (case assign_fields (update_title_value (body_title b))
                           (description_value (body_description b)) (body_completed b) t of
                      Inl err \<Rightarrow> (d, 500, Message ''Server error while updating task'')
                    | Inr t' \<Rightarrow>
                        (case Task_save now d t t' of
                           Inl err \<Rightarrow> (d, 500, Message ''Server error while updating task'')
                         | Inr (d', saved) \<Rightarrow> (d', 200, TaskDoc saved)))))"

text \<open>\<^verbatim>\<open>DELETE /api/tasks/:id\<close>\<close>

definition delete_task :: "env \<Rightarrow> db \<Rightarrow> user \<Rightarrow> string \<Rightarrow> db \<times> response" where
  "delete_task e d u ident =
     (case Task_findOne e d ident (user_id u) of
        Inl err \<Rightarrow> (d, 500, Message ''Server error while deleting task'')
      | Inr None \<Rightarrow> (d, 404, Message ''Task not found'')
      | Inr (Some t) \<Rightarrow> (Task_deleteOne d t, 200, Message ''Task deleted successfully''))"

section \<open>The user model\<close>

text \<open>
  The user schema: \<^verbatim>\<open>username\<close> is trimmed, required, at least 3 characters, unique;
  \<^verbatim>\<open>email\<close> is trimmed and lower-cased, required, unique, and matches the schema's
  pattern; \<^verbatim>\<open>password\<close> is required, at least 6 characters. Queries cast their
  conditions with the same setters.
\<close>

definition email_setter :: "string \<Rightarrow> string" where
  "email_setter s = toLowerCase (trim s)"

definition User_findOne_email :: "db \<Rightarrow> string \<Rightarrow> user option" where
  "User_findOne_email d em = find (\<lambda>u. email u = email_setter em) (users d)"

definition User_findOne_username :: "db \<Rightarrow> string \<Rightarrow> user option" where
  "User_findOne_username d name = find (\<lambda>u. username u = trim name) (users d)"

definition User_findById :: "db \<Rightarrow> nat \<Rightarrow> user option" where
  "User_findById d i = find (\<lambda>u. user_id u = i) (users d)"

text \<open>\<^verbatim>\<open>.select('-password')\<close>: the document without its password field.\<close>

definition select_minus_password :: "user \<Rightarrow> user" where
  "select_minus_password u = u\<lparr>password := None\<rparr>"

definition user_valid :: "env \<Rightarrow> string \<Rightarrow> string \<Rightarrow> string \<Rightarrow> bool" where
  "user_valid e name em pw =
     (name \<noteq> [] \<and> 3 \<le> length name \<and> em \<noteq> [] \<and> email_match e em \<and> pw \<noteq> [] \<and> 6 \<le> length pw)"

definition User_create :: "env \<Rightarrow> nat \<Rightarrow> db \<Rightarrow> string \<Rightarrow> string \<Rightarrow> string \<Rightarrow> mongoose_error + (db \<times> user)" where
  "User_create e now d name em pw =
     (let u = \<lparr>user_id = next_oid d, username = trim name, email = email_setter em,
                password = Some pw, user_createdAt = now, user_updatedAt = now\<rparr>
      in if \<not> user_valid e (username u) (email u) pw then Inl ValidationError
         else if \<exists>x \<in> set (users d). username x = username u \<or> email x = email u then Inl DuplicateKey
         else Inr (d\<lparr>users := users d @ [u], next_oid := Suc (next_oid d)\<rparr>, u))"

section \<open>Tokens\<close>

text \<open>
  \<^verbatim>\<open>jwt.sign({ id }, key, { expiresIn: '30d' })\<close>: the payload is issued at the current
  second and expires 30 days later.
\<close>

definition jwt_sign :: "env \<Rightarrow> nat \<Rightarrow> nat \<Rightarrow> string" where
  "jwt_sign e now i =
     jwt_encode e \<lparr>jwt_id = i, jwt_iat = now div 1000, jwt_exp = now div 1000 + 30 * 86400\<rparr> (JWT_SECRET e)"

text \<open>
  \<^verbatim>\<open>jwt.verify(token, key)\<close> throws for a missing or empty token, for one that does not
  decode, for one whose signature does not verify under the key, and for one whose expiry
  second has been reached; otherwise it returns the payload.
\<close>

datatype jwt_error = JwtMissing | JwtMalformed | JwtInvalidSignature | JwtExpired

definition jwt_verify :: "env \<Rightarrow> nat \<Rightarrow> string option \<Rightarrow> jwt_error + jwt_payload" where
  "jwt_verify e now tok =
     (case tok of
        None \<Rightarrow> Inl JwtMissing
      | Some t \<Rightarrow>
          if t = [] then Inl JwtMissing
          else (case jwt_decode e t of
                  None \<Rightarrow> Inl JwtMalformed
                | Some p \<Rightarrow>
                    if \<not> jwt_signature_ok e t (JWT_SECRET e) then Inl JwtInvalidSignature
                    else if jwt_exp p \<le> now div 1000 then Inl JwtExpired
                    else Inr p))"

section \<open>The authentication middleware\<close>

text \<open>
  \<^verbatim>\<open>protect\<close> answers itself (left) or lets the request through with \<^verbatim>\<open>req.user\<close>
  (right). The token is the second space-separated piece of the header.
\<close>

definition bearer_token :: "string \<Rightarrow> string option" where
  "bearer_token h = index_opt (split_str CHR '' '' h) 1"

definition protect :: "env \<Rightarrow> nat \<Rightarrow> db \<Rightarrow> string option \<Rightarrow> response + user" where
  "protect e now d authorization =
     (case authorization of
        None \<Rightarrow> Inl (401, Message ''Not authorized, no token'')
      | Some h \<Rightarrow>
          if h \<noteq> [] \<and> startsWith h ''Bearer'' then
            (case jwt_verify e now (bearer_token h) of
               Inl err \<Rightarrow> Inl (401, Message ''Not authorized, token failed'')
             | Inr decoded \<Rightarrow>
                 (case map_option select_minus_password (User_findById d (jwt_id decoded)) of
                    None \<Rightarrow> Inl (401, Message ''User not found'')
                  | Some u \<Rightarrow> Inr u))
          else Inl (401, Message ''Not authorized, no token''))"

text \<open>A protected route runs its handler only with the user that \<^verbatim>\<open>protect\<close> resolved.\<close>

definition protected :: "env \<Rightarrow> nat \<Rightarrow> db \<Rightarrow> string option \<Rightarrow> (user \<Rightarrow> db \<times> response) \<Rightarrow> db \<times> response" where
  "protected e now d authorization handler =
     (case protect e now d authorization of
        Inl r \<Rightarrow> (d, r)
      | Inr u \<Rightarrow> handler u)"

section \<open>The authentication handlers\<close>

text \<open>
  The validators of the password look at \<^verbatim>\<open>String(value)\<close> and leave the password
  as it came; \<^verbatim>\<open>bcrypt.hash\<close> and \<^verbatim>\<open>bcrypt.compare\<close> throw for a password that
  is not a string, and the handlers answer 500 from their \<^verbatim>\<open>catch\<close>.
\<close>

definition register_errors :: "env \<Rightarrow> register_body \<Rightarrow> string list" where
  "register_errors e b =
     (if length (trim (reg_username b)) < 3 then [''Username must be at least 3 characters long''] else [])
     @ (if \<not> isEmail e (reg_email b) then [''Please provide a valid email''] else [])
     @ (if length (stringify (reg_password b)) < 6
        then [''Password must be at least 6 characters long''] else [])"

text \<open>\<^verbatim>\<open>POST /api/auth/register\<close>; \<open>salt\<close> is the salt that \<^verbatim>\<open>bcrypt.genSalt\<close> draws.\<close>

definition register :: "env \<Rightarrow> nat \<Rightarrow> string \<Rightarrow> db \<Rightarrow> register_body \<Rightarrow> db \<times> response" where
  "register e now salt d b =
     (let errors = register_errors e b
      in if errors \<noteq> [] then (d, 400, Message (hd errors))
         else
           (let name = trim (reg_username b);
                em = normalizeEmail e (reg_email b)
            in case User_findOne_email d em of
                 Some x \<Rightarrow> (d, 400, Message ''User already exists with this email'')
               | None \<Rightarrow>
                   (case User_findOne_username d name of
                      Some x \<Rightarrow> (d, 400, Message ''Username already taken'')
                    | None \<Rightarrow>
                        (case reg_password b of
                           JStr pw \<Rightarrow>
                             (case User_create e now d name em (bcrypt_hash e pw salt) of
                                Inl err \<Rightarrow> (d, 500, Message ''Server error during registration'')
                              | Inr (d', u) \<Rightarrow>
                                  (d', 201, AuthOk ''User registered successfully''
                                             (jwt_sign e now (user_id u)) (user_id u) (username u) (email u)))
                         | _ \<Rightarrow> (d, 500, Message ''Server error during registration'')))))"

definition login_errors :: "env \<Rightarrow> login_body \<Rightarrow> string list" where
  "login_errors e b =
     (if \<not> isEmail e (login_email b) then [''Please provide a valid email''] else [])
     @ (if stringify (login_password b) = [] then [''Password is required''] else [])"

text \<open>\<^verbatim>\<open>POST /api/auth/login\<close>\<close>

definition login :: "env \<Rightarrow> nat \<Rightarrow> db \<Rightarrow> login_body \<Rightarrow> db \<times> response" where
  "login e now d b =
     (let errors = login_errors e b
      in if errors \<noteq> [] then (d, 400, Message (hd errors))
         else
           (case User_findOne_email d (normalizeEmail e (login_email b)) of
              None \<Rightarrow> (d, 401, Message ''Invalid email or password'')
            | Some u \<Rightarrow>
                (case (login_password b, password u) of
                   (JStr pw, Some h) \<Rightarrow>
                     if \<not> bcrypt_compare e pw h
                     then (d, 401, Message ''Invalid email or password'')
                     else (d, 200, AuthOk ''Login successful''
                                    (jwt_sign e now (user_id u)) (user_id u) (username u) (email u))
                 | _ \<Rightarrow> (d, 500, Message ''Server error during login''))))"

section \<open>The API\<close>

datatype request =
    Register register_body
  | Login login_body
  | GetTasks "string option"
  | PostTask "string option" task_body
  | PutTask "string option" string task_body
  | DeleteTask "string option" string

text \<open>One request, served at the instant \<open>now\<close>.\<close>

fun handle :: "env \<Rightarrow> nat \<Rightarrow> string \<Rightarrow> db \<Rightarrow> request \<Rightarrow> db \<times> response" where
  "handle e now salt d (Register b) = register e now salt d b"
| "handle e now salt d (Login b) = login e now d b"
| "handle e now salt d (GetTasks auth) = protected e now d auth (\<lambda>u. get_tasks d u)"
| "handle e now salt d (PostTask auth b) = protected e now d auth (\<lambda>u. post_task now d u b)"
| "handle e now salt d (PutTask auth ident b) = protected e now d auth (\<lambda>u. put_task e now d u ident b)"
| "handle e now salt d (DeleteTask auth ident) = protected e now d auth (\<lambda>u. delete_task e d u ident)"

text \<open>The databases that the server can be in: the empty one, and every one a request leads to.\<close>

inductive reachable :: "env \<Rightarrow> db \<Rightarrow> bool" for e :: env where
  reachable_empty: "reachable e empty_db"
| reachable_step: "reachable e d \<Longrightarrow> reachable e (fst (handle e now salt d r))"

section \<open>Stored documents\<close>

text \<open>
  What the task schema guarantees of a stored document: its validators hold and its trim
  setters have run.
\<close>

definition stored_ok :: "task \<Rightarrow> bool" where
  "stored_ok t = (task_valid t \<and> no_surrounding_uspace (title t) \<and> no_surrounding_uspace (description t))"

text \<open>Stored tasks have distinct ids, all handed out by the counter.\<close>

definition ids_ok :: "db \<Rightarrow> bool" where
  "ids_ok d = (distinct (map task_id (tasks d)) \<and> (\<forall>t \<in> set (tasks d). task_id t < next_oid d))"

section \<open>A concrete instance\<close>

text \<open>
  A small instance of the library parameters and a database with two users and one task
  each, on which the handlers can be evaluated. The e-mail checks only look for an at
  sign, the hash is the salt, a dollar sign and the password, and a handful of named
  tokens decode: one of each user, one that has expired, one of a user that does not
  exist, and one whose signature does not verify.
\<close>

definition test_env :: env where
  "test_env =
     \<lparr>isEmail = (\<lambda>s. CHR ''@'' \<in> set s),
      normalizeEmail = toLowerCase,
      bcrypt_hash = (\<lambda>pw salt. salt @ ''$'' @ pw),
      bcrypt_compare = (\<lambda>pw h. dropWhile (\<lambda>c. c \<noteq> CHR ''$'') h = CHR ''$'' # pw),
      jwt_encode = (\<lambda>p k. if jwt_id p = 0 then ''tokA'' else ''tokB''),
      jwt_decode = map_of
        [(''tokA'', \<lparr>jwt_id = 0, jwt_iat = 1, jwt_exp = 2592001\<rparr>),
         (''tokB'', \<lparr>jwt_id = 1, jwt_iat = 1, jwt_exp = 2592001\<rparr>),
         (''tokOld'', \<lparr>jwt_id = 0, jwt_iat = 0, jwt_exp = 1\<rparr>),
         (''tokGhost'', \<lparr>jwt_id = 7, jwt_iat = 1, jwt_exp = 2592001\<rparr>),
         (''tokForged'', \<lparr>jwt_id = 0, jwt_iat = 1, jwt_exp = 2592001\<rparr>)],
      jwt_signature_ok = (\<lambda>t k. k = ''key'' \<and> t \<noteq> ''tokForged''),
      JWT_SECRET = ''key'',
      email_match = (\<lambda>s. CHR ''@'' \<in> set s),
      castObjectId = map_of [(''id2'', 2), (''id3'', 3), (''id9'', 9)]\<rparr>"

definition alice :: user where
  "alice = \<lparr>user_id = 0, username = ''alice'', email = ''alice@example.com'',
            password = Some ''salt$secret1'', user_createdAt = 1000, user_updatedAt = 1000\<rparr>"

definition bob :: user where
  "bob = \<lparr>user_id = 1, username = ''bob'', email = ''bob@example.com'',
          password = Some ''salt$secret2'', user_createdAt = 1500, user_updatedAt = 1500\<rparr>"

definition alice_task :: task where
  "alice_task = \<lparr>task_id = 2, task_user = 0, title = utf16 ''Buy milk'', description = [],
                 completed = False, createdAt = 2000, updatedAt = 2000\<rparr>"

definition bob_task :: task where
  "bob_task = \<lparr>task_id = 3, task_user = 1, title = utf16 ''Pay rent'', description = utf16 ''by Friday'',
               completed = False, createdAt = 3000, updatedAt = 3000\<rparr>"

definition call_mum :: task where
  "call_mum = \<lparr>task_id = 4, task_user = 0, title = utf16 ''Call mum'', description = [],
               completed = False, createdAt = 5000, updatedAt = 5000\<rparr>"

definition test_db :: db where
  "test_db = \<lparr>users = [alice, bob], tasks = [alice_task, bob_task], next_oid = 4\<rparr>"

definition no_fields :: task_body where
  "no_fields = \<lparr>body_title = None, body_description = None, body_completed = None, body_user = None\<rparr>"

section \<open>Strings\<close>

lemma dropWhile_fixed: "xs = [] \<or> \<not> P (hd xs) \<Longrightarrow> dropWhile P xs = xs"
  by (cases xs) auto

lemma dropWhile_head: "dropWhile P xs \<noteq> [] \<Longrightarrow> \<not> P (hd (dropWhile P xs))"
  by (simp add: hd_dropWhile)

lemma dropWhile_last: "dropWhile P xs \<noteq> [] \<Longrightarrow> last (dropWhile P xs) = last xs"
  by (induction xs) (auto split: if_splits)

text \<open>Trimming with any whitespace predicate.\<close>

lemma trimmed_ends:
  assumes "rev (dropWhile P (rev (dropWhile P s))) \<noteq> []"
  shows "\<not> P (hd (rev (dropWhile P (rev (dropWhile P s)))))
       \<and> \<not> P (last (rev (dropWhile P (rev (dropWhile P s)))))"
proof -
  define a where "a = dropWhile P s"
  define b where "b = dropWhile P (rev a)"
  from assms have bne: "b \<noteq> []" by (simp add: a_def b_def)
  then have ane: "a \<noteq> []" by (auto simp: b_def)
  have "\<not> P (hd b)" using bne unfolding b_def by (rule dropWhile_head)
  then have l: "\<not> P (last (rev b))" using bne by (simp add: last_rev)
  have "last b = last (rev a)" using bne unfolding b_def by (rule dropWhile_last)
  then have "hd (rev b) = hd a" using bne ane by (simp add: hd_rev last_rev)
  moreover have "\<not> P (hd a)" using ane unfolding a_def by (rule dropWhile_head)
  ultimately show ?thesis using l by (simp add: a_def b_def)
qed

lemma trimmed_fixed:
  assumes "s = [] \<or> (\<not> P (hd s) \<and> \<not> P (last s))"
  shows "rev (dropWhile P (rev (dropWhile P s))) = s"
proof -
  from assms have 1: "dropWhile P s = s" by (intro dropWhile_fixed) auto
  have 2: "dropWhile P (rev s) = rev s"
    using assms by (intro dropWhile_fixed) (auto simp: hd_rev)
  show ?thesis by (simp add: 1 2)
qed

lemma trimmed_empty_iff:
  "rev (dropWhile P (rev (dropWhile P s))) = [] \<longleftrightarrow> (\<forall>c \<in> set s. P c)"
proof
  assume "rev (dropWhile P (rev (dropWhile P s))) = []"
  then have all: "\<forall>c \<in> set (dropWhile P s). P c"
    by (simp add: dropWhile_eq_Nil_conv)
  have "dropWhile P s = []"
  proof (rule ccontr)
    assume ne: "dropWhile P s \<noteq> []"
    then have "\<not> P (hd (dropWhile P s))" by (rule dropWhile_head)
    moreover have "hd (dropWhile P s) \<in> set (dropWhile P s)" using ne by simp
    ultimately show False using all by blast
  qed
  then show "\<forall>c \<in> set s. P c" by (simp add: dropWhile_eq_Nil_conv)
next
  assume "\<forall>c \<in> set s. P c"
  then have d: "dropWhile P s = []" by (simp add: dropWhile_eq_Nil_conv)
  show "rev (dropWhile P (rev (dropWhile P s))) = []" unfolding d by simp
qed


lemma trim_fixed: "no_surrounding_space s \<Longrightarrow> trim s = s"
  unfolding trim_def no_surrounding_space_def by (rule trimmed_fixed)


text \<open>Texts.\<close>

lemma utrim_no_surrounding_uspace: "no_surrounding_uspace (utrim s)"
  using trimmed_ends [of is_uspace s] by (auto simp: no_surrounding_uspace_def utrim_def)

lemma utrim_fixed: "no_surrounding_uspace s \<Longrightarrow> utrim s = s"
  unfolding utrim_def no_surrounding_uspace_def by (rule trimmed_fixed)

lemma utrim_utrim: "utrim (utrim s) = utrim s"
  by (rule utrim_fixed) (rule utrim_no_surrounding_uspace)

lemma utrim_empty_iff: "utrim s = [] \<longleftrightarrow> (\<forall>c \<in> set s. is_uspace c)"
  unfolding utrim_def by (rule trimmed_empty_iff)

lemma utrim_Nil: "utrim [] = []"
  by (simp add: utrim_def)

lemma isLength_count_le: "isLength_count s \<le> length s"
  by (simp add: isLength_count_def)

text \<open>Texts of Latin-1 characters: trimming and both counts are those of the characters.\<close>

lemma of_char_le_255: "(of_char c :: nat) \<le> 255"
proof -
  have "(of_char c :: nat) \<in> range of_char" by simp
  then have "(of_char c :: nat) < 256" unfolding range_nat_of_char by simp
  then show ?thesis by linarith
qed

lemma unat_utf16_char: "unat (word_of_nat (of_char c) :: uchar) = of_char c"
proof -
  have "(of_char c :: nat) < 65536" using of_char_le_255 [of c] by linarith
  then show ?thesis by (simp add: unat_of_nat)
qed

lemma is_space_nat: "is_space c \<longleftrightarrow> (of_char c :: nat) \<in> {9, 10, 11, 12, 13, 32, 160}"
  unfolding is_space_def of_char_eq_iff [where ?'a = nat, symmetric] by simp

lemma is_uspace_utf16_char: "is_uspace (word_of_nat (of_char c)) = is_space c"
proof -
  have "(of_char c :: nat) \<le> 255" by (rule of_char_le_255)
  then show ?thesis
    unfolding is_uspace_def Let_def unat_utf16_char is_space_nat by auto
qed

lemma utrim_utf16: "utrim (utf16 s) = utf16 (trim s)"
  by (simp add: utrim_def trim_def utf16_def dropWhile_map rev_map comp_def is_uspace_utf16_char)

lemma length_utf16: "length (utf16 s) = length s"
  by (simp add: utf16_def)

lemma utf16_Nil_iff: "utf16 s = [] \<longleftrightarrow> s = []"
  by (simp add: utf16_def)

lemma utf16_inject: "utf16 a = utf16 b \<longleftrightarrow> a = b"
proof -
  have "inj (\<lambda>c. word_of_nat (of_char c) :: uchar)"
  proof (rule injI)
    fix x y :: char
    assume "(word_of_nat (of_char x) :: uchar) = word_of_nat (of_char y)"
    then have "unat (word_of_nat (of_char x) :: uchar) = unat (word_of_nat (of_char y) :: uchar)"
      by simp
    then show "x = y" by (simp only: unat_utf16_char of_char_eq_iff)
  qed
  then show ?thesis unfolding utf16_def by (rule inj_map_eq_map)
qed

lemma surrogatePairs_plain:
  "\<forall>c \<in> set s. unat c < 55296 \<Longrightarrow> surrogatePairs s = 0"
proof (induction s rule: surrogatePairs.induct)
  case (1 a b s)
  then have "unat a < 55296" by simp
  then have "\<not> 0xD800 \<le> a" by (simp add: word_le_nat_alt)
  with 1 show ?case by simp
qed simp_all

lemma isLength_count_utf16: "isLength_count (utf16 s) = length s"
proof -
  have u: "\<forall>c \<in> set (utf16 s). unat c \<le> 255"
    using of_char_le_255 by (auto simp: utf16_def unat_utf16_char)
  then have "surrogatePairs (utf16 s) = 0"
    by (intro surrogatePairs_plain) fastforce
  moreover have "filter (\<lambda>c. c = 0xFE0F \<or> c = 0xFE0E) (utf16 s) = []"
    using u by (fastforce simp: filter_empty_conv)
  ultimately show ?thesis
    by (simp add: isLength_count_def presentationSequences_def length_utf16)
qed

text \<open>A text of \<open>n\<close> characters outside the basic plane: \<open>n\<close> by one count, \<open>2 n\<close> by the other.\<close>

lemma surrogatePairs_astral: "surrogatePairs (concat (replicate n [0xD83D, 0xDE00])) = n"
  by (induction n) simp_all

lemma length_astral: "length (concat (replicate n [0xD83D, 0xDE00 :: uchar])) = 2 * n"
  by (induction n) simp_all

lemma isLength_count_astral: "isLength_count (concat (replicate n [0xD83D, 0xDE00])) = n"
proof -
  have "filter (\<lambda>c. c = 0xFE0F \<or> c = 0xFE0E) (concat (replicate n [0xD83D, 0xDE00 :: uchar])) = []"
    by (induction n) simp_all
  then show ?thesis
    by (simp add: isLength_count_def presentationSequences_def surrogatePairs_astral length_astral)
qed

lemma utrim_astral: "utrim (concat (replicate n [0xD83D, 0xDE00])) = concat (replicate n [0xD83D, 0xDE00])"
proof (rule utrim_fixed)
  have e: "\<not> is_uspace 0xD83D" "\<not> is_uspace 0xDE00" by (simp_all add: is_uspace_def)
  show "no_surrounding_uspace (concat (replicate n [0xD83D, 0xDE00]))"
  proof (cases n)
    case 0
    then show ?thesis by (simp add: no_surrounding_uspace_def)
  next
    case (Suc m)
    have "last (concat (replicate (Suc m) [0xD83D, 0xDE00 :: uchar])) = 0xDE00"
      by (induction m) simp_all
    with Suc e show ?thesis by (simp add: no_surrounding_uspace_def)
  qed
qed

section \<open>Sorting by creation instant\<close>

lemma insert_desc_set: "set (insert_desc t xs) = insert t (set xs)"
  by (induction xs) auto

lemma insert_desc_mset: "mset (insert_desc t xs) = add_mset t (mset xs)"
  by (induction xs) auto

lemma sort_desc_mset: "mset (sort_createdAt_desc xs) = mset xs"
  by (induction xs) (auto simp: insert_desc_mset)

lemma sort_desc_set: "set (sort_createdAt_desc xs) = set xs"
  by (induction xs) (auto simp: insert_desc_set)

lemma insert_desc_sorted:
  "sorted_wrt (\<lambda>a b. createdAt b \<le> createdAt a) xs \<Longrightarrow> sorted_wrt (\<lambda>a b. createdAt b \<le> createdAt a) (insert_desc t xs)"
  by (induction xs) (auto simp: insert_desc_set)

lemma sort_desc_sorted: "sorted_wrt (\<lambda>a b. createdAt b \<le> createdAt a) (sort_createdAt_desc xs)"
  by (induction xs) (auto simp: insert_desc_sorted)

lemma sort_desc_newest_last:
  "\<forall>x \<in> set xs. createdAt x < createdAt n \<Longrightarrow> sort_createdAt_desc (xs @ [n]) = n # sort_createdAt_desc xs"
  by (induction xs) auto

section \<open>Validation and the task handlers\<close>

lemma toString_simps: "toString None = []" "toString (Some s) = s"
  by (simp_all add: toString_def)

lemma isLength_count_Nil: "isLength_count [] = 0"
  by (simp add: isLength_count_def)

lemma create_title_errors_empty:
  "create_title_errors v = [] \<longleftrightarrow>
     utrim (toString v) \<noteq> [] \<and> isLength_count (utrim (toString v)) \<le> 200"
  by (auto simp: create_title_errors_def create_title_value_def)

lemma update_title_errors_empty:
  "update_title_errors v = [] \<longleftrightarrow>
     (\<forall>s. v = Some s \<longrightarrow> utrim s \<noteq> [] \<and> isLength_count (utrim s) \<le> 200)"
  by (cases v) (auto simp: update_title_errors_def update_title_value_def)

lemma description_errors_empty:
  "description_errors v = [] \<longleftrightarrow> (\<forall>s. v = Some s \<longrightarrow> isLength_count (utrim s) \<le> 1000)"
  by (cases v) (auto simp: description_errors_def description_value_def)

lemma description_or_empty:
  "utrim (case description_value v of None \<Rightarrow> [] | Some s \<Rightarrow> s) = utrim (toString v)"
  by (cases v) (simp_all add: description_value_def toString_simps utrim_utrim)

lemma post_task_rejects:
  "create_errors b \<noteq> [] \<Longrightarrow> post_task now d u b = (d, 400, Message (hd (create_errors b)))"
  by (simp add: post_task_def)

text \<open>
  The three outcomes of \<^verbatim>\<open>POST /api/tasks\<close>: the request validation fails; it passes
  and the schema validation of \<^verbatim>\<open>Task.create\<close> fails, which the handler catches; both
  pass.
\<close>

lemma post_task_outcome:
  "post_task now d u b =
     (if create_errors b \<noteq> [] then (d, 400, Message (hd (create_errors b)))
      else if 200 < length (utrim (toString (body_title b)))
              \<or> 1000 < length (utrim (toString (body_description b)))
      then (d, 500, Message ''Server error while creating task'')
      else (d\<lparr>tasks := tasks d @ [\<lparr>task_id = next_oid d, task_user = user_id u,
                                    title = utrim (toString (body_title b)),
                                    description = utrim (toString (body_description b)),
                                    completed = False, createdAt = now, updatedAt = now\<rparr>],
               next_oid := Suc (next_oid d)\<rparr>,
            201,
            TaskDoc \<lparr>task_id = next_oid d, task_user = user_id u,
                     title = utrim (toString (body_title b)),
                     description = utrim (toString (body_description b)),
                     completed = False, createdAt = now, updatedAt = now\<rparr>))"
proof (cases "create_errors b = []")
  case False
  then show ?thesis by (simp add: post_task_rejects)
next
  case True
  then have t: "utrim (toString (body_title b)) \<noteq> []"
    by (simp add: create_errors_def create_title_errors_empty)
  show ?thesis
    using True t
    by (auto simp: post_task_def Task_create_def Let_def task_valid_def create_title_value_def
        utrim_utrim description_or_empty)
qed

lemma post_task_accepts:
  assumes "create_errors b = []"
    and "length (utrim (toString (body_title b))) \<le> 200"
    and "length (utrim (toString (body_description b))) \<le> 1000"
  shows "post_task now d u b =
           (d\<lparr>tasks := tasks d @ [\<lparr>task_id = next_oid d, task_user = user_id u,
                                    title = utrim (toString (body_title b)),
                                    description = utrim (toString (body_description b)),
                                    completed = False, createdAt = now, updatedAt = now\<rparr>],
              next_oid := Suc (next_oid d)\<rparr>,
            201,
            TaskDoc \<lparr>task_id = next_oid d, task_user = user_id u,
                     title = utrim (toString (body_title b)),
                     description = utrim (toString (body_description b)),
                     completed = False, createdAt = now, updatedAt = now\<rparr>)"
  using assms by (simp add: post_task_outcome)

lemma post_task_schema_rejects:
  assumes "create_errors b = []"
    and "200 < length (utrim (toString (body_title b)))
         \<or> 1000 < length (utrim (toString (body_description b)))"
  shows "post_task now d u b = (d, 500, Message ''Server error while creating task'')"
  using assms by (simp add: post_task_outcome)

lemma digits10_digits: "\<forall>c \<in> set (digits10 n). 48 \<le> (of_char c :: nat) \<and> of_char c \<le> (57::nat)"
proof (induction n rule: digits10.induct)
  case (1 n)
  show ?case
  proof (cases "n < 10")
    case True
    then show ?thesis by (subst digits10.simps) simp
  next
    case False
    have "n mod 10 < 10" by simp
    then have "48 + n mod 10 < 256" by linarith
    with False 1 show ?thesis
      by (subst digits10.simps) (auto simp: )
  qed
qed

lemma digits10_nonempty: "digits10 n \<noteq> []"
  by (subst digits10.simps) simp

lemma digits10_single: "digits10 n = [c] \<Longrightarrow> n < 10 \<and> of_char c = 48 + n"
proof (cases "n < 10")
  case True
  assume "digits10 n = [c]"
  with True show ?thesis by (subst (asm) digits10.simps) auto
next
  case False
  assume h: "digits10 n = [c]"
  from False have "digits10 n = digits10 (n div 10) @ [char_of (48 + n mod 10)]"
    by (subst digits10.simps) simp
  with h digits10_nonempty [of "n div 10"] show ?thesis by (cases "digits10 (n div 10)") auto
qed

lemma isBoolean_digits10: "isBoolean (digits10 n) \<Longrightarrow> n = 0 \<or> n = 1"
proof -
  assume h: "isBoolean (digits10 n)"
  have nt: "digits10 n \<noteq> ''true''" "digits10 n \<noteq> ''false''"
    using digits10_digits [of n] by auto
  with h have "digits10 n = ''1'' \<or> digits10 n = ''0''" by (auto simp: isBoolean_def)
  then show ?thesis by (auto dest!: digits10_single)
qed

lemma isBoolean_cast: "isBoolean (stringify c) \<Longrightarrow> \<exists>v. cast_boolean c = Some v"
proof (cases c)
  case (JBool x)
  then show ?thesis by (simp add: cast_boolean_def)
next
  case (JNum n)
  assume h: "isBoolean (stringify c)"
  show ?thesis
  proof (cases "n < 0")
    case True
    with h JNum show ?thesis by (simp add: stringify_def isBoolean_def)
  next
    case False
    with h JNum have "isBoolean (digits10 (nat n))" by (simp add: stringify_def)
    then have "nat n = 0 \<or> nat n = 1" by (rule isBoolean_digits10)
    with False have "n = 0 \<or> n = 1" by auto
    with JNum show ?thesis by (auto simp: cast_boolean_def)
  qed
next
  case (JStr s)
  assume "isBoolean (stringify c)"
  with JStr show ?thesis by (auto simp: stringify_def isBoolean_def cast_boolean_def)
qed

lemma completed_errors_empty:
  "completed_errors v = [] \<longleftrightarrow> (\<forall>c. v = Some c \<longrightarrow> isBoolean (stringify c))"
  by (cases v) (auto simp: completed_errors_def)

lemma update_errors_empty:
  "update_errors b = [] \<longleftrightarrow>
     update_title_errors (body_title b) = [] \<and> description_errors (body_description b) = []
     \<and> completed_errors (body_completed b) = []"
  by (simp add: update_errors_def)

lemma put_task_rejects:
  "update_errors b \<noteq> [] \<Longrightarrow> put_task e now d u ident b = (d, 400, Message (hd (update_errors b)))"
  by (simp add: put_task_def)

lemma put_task_not_found:
  "update_errors b = [] \<Longrightarrow> castObjectId e ident = Some i \<Longrightarrow>
   \<not> (\<exists>t \<in> set (tasks d). task_id t = i \<and> task_user t = user_id u) \<Longrightarrow>
   put_task e now d u ident b = (d, 404, Message ''Task not found'')"
  by (simp add: put_task_def Task_findOne_def find_None_iff [THEN iffD2])

lemma delete_task_not_found:
  "castObjectId e ident = Some i \<Longrightarrow>
   \<not> (\<exists>t \<in> set (tasks d). task_id t = i \<and> task_user t = user_id u) \<Longrightarrow>
   delete_task e d u ident = (d, 404, Message ''Task not found'')"
  by (simp add: delete_task_def Task_findOne_def find_None_iff [THEN iffD2])

lemma delete_task_found:
  "castObjectId e ident = Some i \<Longrightarrow>
   find (\<lambda>t. task_id t = i \<and> task_user t = user_id u) (tasks d) = Some t \<Longrightarrow>
   delete_task e d u ident = (Task_deleteOne d t, 200, Message ''Task deleted successfully'')"
  by (simp add: delete_task_def Task_findOne_def)

text \<open>The document after the assignments of a validated body.\<close>

lemma assign_fields_ok:
  assumes "completed_errors fl = []"
  shows "\<exists>t'. assign_fields ttl descr fl t = Inr t'
           \<and> title t' = (case ttl of None \<Rightarrow> title t | Some s \<Rightarrow> utrim s)
           \<and> description t' = (case descr of None \<Rightarrow> description t | Some s \<Rightarrow> utrim s)
           \<and> (fl = None \<longrightarrow> completed t' = completed t)
           \<and> (\<forall>c. fl = Some c \<longrightarrow> cast_boolean c = Some (completed t'))
           \<and> task_id t' = task_id t \<and> task_user t' = task_user t
           \<and> createdAt t' = createdAt t \<and> updatedAt t' = updatedAt t"
proof (cases fl)
  case None
  then show ?thesis
    by (cases ttl; cases descr) (simp_all add: assign_fields_def)
next
  case (Some c)
  with assms have "isBoolean (stringify c)" by (simp add: completed_errors_empty)
  then obtain v where "cast_boolean c = Some v" using isBoolean_cast by blast
  with Some show ?thesis
    by (cases ttl; cases descr) (simp_all add: assign_fields_def)
qed

lemma replace_first_set: "set (replace_first P y xs) \<subseteq> insert y (set xs)"
  by (induction xs) auto

lemma remove_first_set: "set (remove_first P xs) \<subseteq> set xs"
  by (induction xs) auto

lemma find_some_holds: "find P xs = Some x \<Longrightarrow> P x \<and> x \<in> set xs"
  by (induction xs) (auto split: if_splits)

text \<open>
  An update of a found task with a validated body: the schema validation of
  \<^verbatim>\<open>task.save()\<close> decides between 200 and the 500 of the \<^verbatim>\<open>catch\<close>.
\<close>

lemma put_task_found:
  assumes cast: "castObjectId e ident = Some i"
    and found: "find (\<lambda>x. task_id x = i \<and> task_user x = user_id u) (tasks d) = Some t"
    and valid: "update_errors b = []"
    and tv: "task_valid t"
    and st: "\<forall>s. body_title b = Some s \<longrightarrow> length (utrim s) \<le> 200"
    and sd: "\<forall>s. body_description b = Some s \<longrightarrow> length (utrim s) \<le> 1000"
  shows "\<exists>t'. put_task e now d u ident b
                 = (d\<lparr>tasks := replace_first (\<lambda>x. task_id x = i) t' (tasks d)\<rparr>, 200, TaskDoc t')
           \<and> title t' = (case body_title b of None \<Rightarrow> title t | Some s \<Rightarrow> utrim s)
           \<and> description t' = (case body_description b of None \<Rightarrow> description t | Some s \<Rightarrow> utrim s)
           \<and> (body_completed b = None \<longrightarrow> completed t' = completed t)
           \<and> (\<forall>c. body_completed b = Some c \<longrightarrow> cast_boolean c = Some (completed t'))
           \<and> task_id t' = i \<and> task_user t' = user_id u \<and> createdAt t' = createdAt t
           \<and> updatedAt t' = (if t' = t then updatedAt t else now)
           \<and> (title t' = title t \<and> description t' = description t \<and> completed t' = completed t
                \<longrightarrow> t' = t)"
proof -
  from valid have ve: "update_title_errors (body_title b) = []"
      "description_errors (body_description b) = []" "completed_errors (body_completed b) = []"
    by (simp_all add: update_errors_empty)
  from found have ti: "task_id t = i" "task_user t = user_id u"
    by (auto dest: find_some_holds)
  obtain t1 where a: "assign_fields (update_title_value (body_title b))
        (description_value (body_description b)) (body_completed b) t = Inr t1"
    and f: "title t1 = (case update_title_value (body_title b) of None \<Rightarrow> title t | Some s \<Rightarrow> utrim s)"
      "description t1 = (case description_value (body_description b) of None \<Rightarrow> description t | Some s \<Rightarrow> utrim s)"
      "body_completed b = None \<longrightarrow> completed t1 = completed t"
      "\<forall>c. body_completed b = Some c \<longrightarrow> cast_boolean c = Some (completed t1)"
      "task_id t1 = task_id t" "task_user t1 = task_user t" "createdAt t1 = createdAt t"
      "updatedAt t1 = updatedAt t"
    using assign_fields_ok [OF ve(3)] by blast
  have ft: "title t1 = (case body_title b of None \<Rightarrow> title t | Some s \<Rightarrow> utrim s)"
    using f(1) by (cases "body_title b") (simp_all add: update_title_value_def utrim_utrim)
  have fd: "description t1 = (case body_description b of None \<Rightarrow> description t | Some s \<Rightarrow> utrim s)"
    using f(2) by (cases "body_description b") (simp_all add: description_value_def utrim_utrim)
  have v1: "task_valid t1"
  proof -
    have "title t1 \<noteq> [] \<and> length (title t1) \<le> 200"
      using ft tv ve(1) st by (cases "body_title b") (auto simp: task_valid_def update_title_errors_empty)
    moreover have "length (description t1) \<le> 1000"
      using fd tv sd by (cases "body_description b") (auto simp: task_valid_def)
    ultimately show ?thesis by (simp add: task_valid_def)
  qed
  define t' where "t' = (if t1 = t then t1 else t1\<lparr>updatedAt := now\<rparr>)"
  have s: "Task_save now d t t1 = Inr (d\<lparr>tasks := replace_first (\<lambda>x. task_id x = i) t' (tasks d)\<rparr>, t')"
    using v1 f(5) ti(1) by (simp add: Task_save_def t'_def Let_def)
  have p: "put_task e now d u ident b
             = (d\<lparr>tasks := replace_first (\<lambda>x. task_id x = i) t' (tasks d)\<rparr>, 200, TaskDoc t')"
    using valid cast found a s by (simp add: put_task_def Task_findOne_def)
  have same: "title t' = title t1" "description t' = description t1" "completed t' = completed t1"
    "task_id t' = task_id t1" "task_user t' = task_user t1" "createdAt t' = createdAt t1"
    by (simp_all add: t'_def)
  have stamp: "updatedAt t' = (if t' = t then updatedAt t else now)"
  proof (cases "t1 = t")
    case True
    then show ?thesis by (simp add: t'_def)
  next
    case False
    have "t1\<lparr>updatedAt := now\<rparr> = t \<Longrightarrow> updatedAt t = now"
      by (metis task.select_convs(7) task.surjective task.update_convs(7))
    with False show ?thesis by (auto simp: t'_def)
  qed
  have keep: "t1 = t" if "title t1 = title t" "description t1 = description t" "completed t1 = completed t"
    using that f(5-8) by (intro task.equality) simp_all
  have unchanged: "title t' = title t \<and> description t' = description t \<and> completed t' = completed t
      \<longrightarrow> t' = t"
  proof
    assume "title t' = title t \<and> description t' = description t \<and> completed t' = completed t"
    with same have "t1 = t" by (intro keep) simp_all
    then show "t' = t" by (simp add: t'_def)
  qed
  have r1: "title t' = (case body_title b of None \<Rightarrow> title t | Some s \<Rightarrow> utrim s)"
    using same(1) ft by simp
  have r2: "description t' = (case body_description b of None \<Rightarrow> description t | Some s \<Rightarrow> utrim s)"
    using same(2) fd by simp
  have r3: "body_completed b = None \<longrightarrow> completed t' = completed t"
    using same(3) f(3) by simp
  have r4: "\<forall>c. body_completed b = Some c \<longrightarrow> cast_boolean c = Some (completed t')"
    using same(3) f(4) by simp
  have r5: "task_id t' = i" "task_user t' = user_id u" "createdAt t' = createdAt t"
    using same(4-6) f(5-7) ti by simp_all
  show ?thesis
    by (intro exI [of _ t'] conjI) (fact p r1 r2 r3 r4 r5 stamp unchanged)+
qed

lemma put_task_schema_rejects:
  assumes cast: "castObjectId e ident = Some i"
    and found: "find (\<lambda>x. task_id x = i \<and> task_user x = user_id u) (tasks d) = Some t"
    and valid: "update_errors b = []"
    and long: "(\<exists>s. body_title b = Some s \<and> 200 < length (utrim s))
               \<or> (\<exists>s. body_description b = Some s \<and> 1000 < length (utrim s))"
  shows "put_task e now d u ident b = (d, 500, Message ''Server error while updating task'')"
proof -
  from valid have ve: "completed_errors (body_completed b) = []"
    by (simp add: update_errors_empty)
  obtain t1 where a: "assign_fields (update_title_value (body_title b))
        (description_value (body_description b)) (body_completed b) t = Inr t1"
    and f: "title t1 = (case update_title_value (body_title b) of None \<Rightarrow> title t | Some s \<Rightarrow> utrim s)"
      "description t1 = (case description_value (body_description b) of None \<Rightarrow> description t | Some s \<Rightarrow> utrim s)"
    using assign_fields_ok [OF ve] by blast
  from long f have "\<not> task_valid t1"
    by (auto simp: task_valid_def update_title_value_def description_value_def utrim_utrim)
  then have "Task_save now d t t1 = Inl ValidationError" by (simp add: Task_save_def)
  with valid cast found a show ?thesis by (simp add: put_task_def Task_findOne_def)
qed

lemma post_task_stored_ok:
  assumes h: "\<forall>t \<in> set (tasks d). stored_ok t"
  shows "\<forall>t \<in> set (tasks (fst (post_task now d u b))). stored_ok t"
proof -
  have "utrim (toString (body_title b)) \<noteq> []" if "create_errors b = []"
    using that by (simp add: create_errors_def create_title_errors_empty)
  with h show ?thesis
    by (auto simp: post_task_outcome stored_ok_def task_valid_def utrim_no_surrounding_uspace)
qed

lemma put_task_tasks:
  "tasks (fst (put_task e now d u ident b)) = tasks d
   \<or> (\<exists>t t' i. find (\<lambda>x. task_id x = i \<and> task_user x = user_id u) (tasks d) = Some t
        \<and> update_errors b = []
        \<and> assign_fields (update_title_value (body_title b)) (description_value (body_description b))
             (body_completed b) t = Inr t'
        \<and> task_valid t'
        \<and> tasks (fst (put_task e now d u ident b))
            = replace_first (\<lambda>x. task_id x = task_id t') (if t' = t then t' else t'\<lparr>updatedAt := now\<rparr>) (tasks d))"
  by (auto simp: put_task_def Task_findOne_def Task_save_def Let_def split: option.splits sum.splits)

lemma assign_fields_trimmed:
  assumes "assign_fields (update_title_value tt) (description_value dd) fl t = Inr t'"
    and "no_surrounding_uspace (title t)" "no_surrounding_uspace (description t)"
  shows "no_surrounding_uspace (title t') \<and> no_surrounding_uspace (description t')"
  using assms
  by (cases tt; cases dd; cases fl)
     (auto simp: assign_fields_def update_title_value_def description_value_def
        utrim_no_surrounding_uspace split: option.splits)

lemma put_task_stored_ok:
  assumes h: "\<forall>t \<in> set (tasks d). stored_ok t"
  shows "\<forall>t \<in> set (tasks (fst (put_task e now d u ident b))). stored_ok t"
proof -
  consider (same) "tasks (fst (put_task e now d u ident b)) = tasks d"
    | (upd) t t' i where "find (\<lambda>x. task_id x = i \<and> task_user x = user_id u) (tasks d) = Some t"
        "assign_fields (update_title_value (body_title b)) (description_value (body_description b))
             (body_completed b) t = Inr t'"
        "task_valid t'"
        "tasks (fst (put_task e now d u ident b))
            = replace_first (\<lambda>x. task_id x = task_id t') (if t' = t then t' else t'\<lparr>updatedAt := now\<rparr>) (tasks d)"
    using put_task_tasks [of e now d u ident b] by blast
  then show ?thesis
  proof cases
    case same
    with h show ?thesis by simp
  next
    case upd
    from upd(1) have "t \<in> set (tasks d)" by (auto dest: find_some_holds)
    with h have "stored_ok t" by blast
    then have "no_surrounding_uspace (title t')  \<and> no_surrounding_uspace (description t')"
      using assign_fields_trimmed [OF upd(2)] by (simp add: stored_ok_def)
    with upd(3) have ok: "stored_ok (if t' = t then t' else t'\<lparr>updatedAt := now\<rparr>)"
      by (cases "t' = t") (simp_all add: stored_ok_def task_valid_def)
    show ?thesis
      unfolding upd(4) using h ok replace_first_set by fastforce
  qed
qed

lemma delete_task_stored_ok:
  "\<forall>t \<in> set (tasks d). stored_ok t \<Longrightarrow> \<forall>t \<in> set (tasks (fst (delete_task e d u ident))). stored_ok t"
  using remove_first_set
  by (fastforce simp: delete_task_def Task_findOne_def Task_deleteOne_def split: option.splits)

lemma register_tasks: "tasks (fst (register e now salt d b)) = tasks d"
  by (auto simp: register_def User_create_def Let_def split: option.splits jval.splits)

lemma login_unchanged: "fst (login e now d b) = d"
  by (simp add: login_def Let_def split: option.splits jval.splits)

lemma handle_stored_ok:
  assumes h: "\<forall>t \<in> set (tasks d). stored_ok t"
  shows "\<forall>t \<in> set (tasks (fst (handle e now salt d r))). stored_ok t"
proof (cases r)
  case (Register b)
  with h show ?thesis by (simp add: register_tasks)
next
  case (Login b)
  with h show ?thesis by (simp add: login_unchanged)
next
  case (GetTasks a)
  with h show ?thesis by (simp add: protected_def get_tasks_def split: sum.splits)
next
  case (PostTask a b)
  with h post_task_stored_ok show ?thesis by (simp add: protected_def split: sum.splits)
next
  case (PutTask a ident b)
  with h put_task_stored_ok show ?thesis by (simp add: protected_def split: sum.splits)
next
  case (DeleteTask a ident)
  with h delete_task_stored_ok show ?thesis by (simp add: protected_def split: sum.splits)
qed

lemma reachable_stored_ok: "reachable e d \<Longrightarrow> \<forall>t \<in> set (tasks d). stored_ok t"
proof (induction rule: reachable.induct)
  case reachable_empty
  show ?case by (simp add: empty_db_def)
next
  case (reachable_step d now salt r)
  from reachable_step.IH show ?case by (rule handle_stored_ok)
qed

subsection \<open>Stored tasks have distinct ids\<close>

lemma replace_first_same_key:
  "f y = k \<Longrightarrow> map f (replace_first (\<lambda>x. f x = k) y xs) = map f xs"
  by (induction xs) auto

lemma replace_first_distinct:
  "distinct (map f xs) \<Longrightarrow> f y = k \<Longrightarrow>
   replace_first (\<lambda>x. f x = k) y xs = map (\<lambda>x. if f x = k then y else x) xs"
proof (induction xs)
  case Nil
  show ?case by simp
next
  case (Cons x xs)
  show ?case
  proof (cases "f x = k")
    case True
    from Cons.prems(1) have "f x \<notin> f ` set xs" by simp
    with True have "\<forall>z \<in> set xs. f z \<noteq> k" by (metis imageI)
    then have "map (\<lambda>x. if f x = k then y else x) xs = xs" by (induction xs) auto
    with True show ?thesis by simp
  next
    case False
    with Cons show ?thesis by simp
  qed
qed

lemma remove_first_distinct: "distinct (map f xs) \<Longrightarrow> distinct (map f (remove_first P xs))"
proof (induction xs)
  case Nil
  show ?case by simp
next
  case (Cons x xs)
  then have "f x \<notin> f ` set (remove_first P xs)"
    using remove_first_set [of P xs] by auto
  with Cons show ?case by simp
qed

lemma post_task_ids_ok: "ids_ok d \<Longrightarrow> ids_ok (fst (post_task now d u b))"
  by (auto simp: post_task_outcome ids_ok_def)

lemma put_task_next_oid: "next_oid (fst (put_task e now d u ident b)) = next_oid d"
  by (auto simp: put_task_def Task_findOne_def Task_save_def Let_def split: option.splits sum.splits)

lemma put_task_ids_ok:
  assumes h: "ids_ok d"
  shows "ids_ok (fst (put_task e now d u ident b))"
proof -
  consider (same) "tasks (fst (put_task e now d u ident b)) = tasks d"
    | (upd) t t' i where "find (\<lambda>x. task_id x = i \<and> task_user x = user_id u) (tasks d) = Some t"
        "assign_fields (update_title_value (body_title b)) (description_value (body_description b))
             (body_completed b) t = Inr t'"
        "tasks (fst (put_task e now d u ident b))
            = replace_first (\<lambda>x. task_id x = task_id t') (if t' = t then t' else t'\<lparr>updatedAt := now\<rparr>) (tasks d)"
    using put_task_tasks [of e now d u ident b] by blast
  then show ?thesis
  proof cases
    case same
    with h show ?thesis by (simp add: ids_ok_def put_task_next_oid)
  next
    case upd
    have "map task_id (tasks (fst (put_task e now d u ident b))) = map task_id (tasks d)"
      unfolding upd(3) by (rule replace_first_same_key) simp
    then have "distinct (map task_id (tasks (fst (put_task e now d u ident b))))"
      and "set (map task_id (tasks (fst (put_task e now d u ident b)))) = set (map task_id (tasks d))"
      using h by (simp_all add: ids_ok_def)
    with h show ?thesis
      unfolding ids_ok_def put_task_next_oid by (metis (no_types, lifting) image_iff list.set_map)
  qed
qed

lemma delete_task_ids_ok: "ids_ok d \<Longrightarrow> ids_ok (fst (delete_task e d u ident))"
  using remove_first_set
  by (fastforce simp: delete_task_def Task_findOne_def Task_deleteOne_def ids_ok_def
      remove_first_distinct split: option.splits)

lemma register_ids_ok: "ids_ok d \<Longrightarrow> ids_ok (fst (register e now salt d b))"
  by (auto simp: register_def User_create_def Let_def ids_ok_def less_Suc_eq
      split: option.splits jval.splits)

lemma handle_ids_ok:
  assumes h: "ids_ok d"
  shows "ids_ok (fst (handle e now salt d r))"
proof (cases r)
  case (Register b)
  with h show ?thesis by (simp add: register_ids_ok)
next
  case (Login b)
  with h show ?thesis by (simp add: login_unchanged)
next
  case (GetTasks a)
  with h show ?thesis by (simp add: protected_def get_tasks_def split: sum.splits)
next
  case (PostTask a b)
  with h show ?thesis by (simp add: protected_def post_task_ids_ok split: sum.splits)
next
  case (PutTask a ident b)
  with h show ?thesis by (simp add: protected_def put_task_ids_ok split: sum.splits)
next
  case (DeleteTask a ident)
  with h show ?thesis by (simp add: protected_def delete_task_ids_ok split: sum.splits)
qed

lemma reachable_ids_ok: "reachable e d \<Longrightarrow> ids_ok d"
proof (induction rule: reachable.induct)
  case reachable_empty
  show ?case by (simp add: empty_db_def ids_ok_def)
next
  case (reachable_step d now salt r)
  from reachable_step.IH show ?case by (rule handle_ids_ok)
qed

section \<open>Ownership-scoped update and delete\<close>

lemmas fixture_defs = test_env_def test_db_def alice_def bob_def alice_task_def bob_task_def
  no_fields_def select_minus_password_def empty_db_def

lemma Nil_utf16_iff: "[] = utf16 s \<longleftrightarrow> s = []"
  by (auto simp: utf16_def)

lemmas utf16_simps = length_utf16 isLength_count_utf16 utf16_Nil_iff Nil_utf16_iff utf16_inject

lemma put_task_never_404_when_found:
  assumes "castObjectId e ident = Some i"
    and "\<exists>t \<in> set (tasks d). task_id t = i \<and> task_user t = user_id u"
  shows "fst (snd (put_task e now d u ident b)) \<noteq> 404"
proof -
  from assms(2) have "find (\<lambda>t. task_id t = i \<and> task_user t = user_id u) (tasks d) \<noteq> None"
    by (auto simp: find_None_iff)
  then obtain t where "find (\<lambda>t. task_id t = i \<and> task_user t = user_id u) (tasks d) = Some t"
    by blast
  with assms(1) show ?thesis
    by (simp add: put_task_def Task_findOne_def Let_def split: sum.splits prod.splits)
qed

lemma delete_task_200_when_found:
  assumes "castObjectId e ident = Some i"
    and "\<exists>t \<in> set (tasks d). task_id t = i \<and> task_user t = user_id u"
  shows "fst (snd (delete_task e d u ident)) = 200"
proof -
  from assms(2) have "find (\<lambda>t. task_id t = i \<and> task_user t = user_id u) (tasks d) \<noteq> None"
    by (auto simp: find_None_iff)
  then obtain t where "find (\<lambda>t. task_id t = i \<and> task_user t = user_id u) (tasks d) = Some t"
    by blast
  with assms(1) show ?thesis
    by (simp add: delete_task_found)
qed

text \<open>
  C1 (as amended). For every user and every id of the URL that casts to an object id:
  when no stored task has both that id and that owner, whether no task has the id at all
  or one has it under another owner, \<^verbatim>\<open>DELETE\<close> answers 404 "Task not found", and
  so does \<^verbatim>\<open>PUT\<close> for every body that passes the request validation. The database
  is unchanged in all these cases. When such a task exists, the answer is not 404. A
  body that fails the request validation is answered with 400 and the first message,
  whether a task matches or not.
\<close>

theorem update_delete_not_found:
  assumes "castObjectId e ident = Some i"
  shows "(\<not> (\<exists>t \<in> set (tasks d). task_id t = i \<and> task_user t = user_id u) \<longrightarrow>
            delete_task e d u ident = (d, 404, Message ''Task not found'')
            \<and> (update_errors b = [] \<longrightarrow> put_task e now d u ident b = (d, 404, Message ''Task not found''))
            \<and> (update_errors b \<noteq> [] \<longrightarrow> put_task e now d u ident b = (d, 400, Message (hd (update_errors b)))))
       \<and> ((\<exists>t \<in> set (tasks d). task_id t = i \<and> task_user t = user_id u) \<longrightarrow>
            fst (snd (delete_task e d u ident)) = 200 \<and> fst (snd (put_task e now d u ident b)) \<noteq> 404)
       \<and> (update_errors b \<noteq> [] \<longrightarrow> put_task e now d u ident b = (d, 400, Message (hd (update_errors b))))"
  using assms put_task_rejects [of b e now d u ident] put_task_not_found [of b e ident i d u now]
    delete_task_not_found [of e ident i d u] delete_task_200_when_found [of e ident i d u]
    put_task_never_404_when_found [of e ident i d u now b]
  by blast

theorem update_delete_not_found_witness:
  "delete_task test_env test_db (select_minus_password bob) ''id2'' = (test_db, 404, Message ''Task not found'')
   \<and> delete_task test_env test_db (select_minus_password bob) ''id9'' = (test_db, 404, Message ''Task not found'')
   \<and> put_task test_env 5000 test_db (select_minus_password bob) ''id2'' (no_fields\<lparr>body_completed := Some (JBool True)\<rparr>)
       = (test_db, 404, Message ''Task not found'')
   \<and> put_task test_env 5000 test_db (select_minus_password bob) ''id9'' (no_fields\<lparr>body_completed := Some (JBool True)\<rparr>)
       = (test_db, 404, Message ''Task not found'')
   \<and> fst (snd (delete_task test_env test_db (select_minus_password bob) ''id3'')) = 200"
proof -
  have c2: "castObjectId test_env ''id2'' = Some 2" and c9: "castObjectId test_env ''id9'' = Some 9"
    and c3: "castObjectId test_env ''id3'' = Some 3"
    by (simp_all add: test_env_def)
  have n2: "\<not> (\<exists>t \<in> set (tasks test_db). task_id t = 2 \<and> task_user t = user_id (select_minus_password bob))"
    and n9: "\<not> (\<exists>t \<in> set (tasks test_db). task_id t = 9 \<and> task_user t = user_id (select_minus_password bob))"
    and y3: "\<exists>t \<in> set (tasks test_db). task_id t = 3 \<and> task_user t = user_id (select_minus_password bob)"
    by (simp_all add: fixture_defs)
  have v: "update_errors (no_fields\<lparr>body_completed := Some (JBool True)\<rparr>) = []"
    by (simp add: no_fields_def update_errors_def update_title_errors_def update_title_value_def
        description_errors_def description_value_def completed_errors_def stringify_def isBoolean_def)
  show ?thesis
    using update_delete_not_found [OF c2, of test_db "select_minus_password bob" "no_fields\<lparr>body_completed := Some (JBool True)\<rparr>" 5000]
      update_delete_not_found [OF c9, of test_db "select_minus_password bob" "no_fields\<lparr>body_completed := Some (JBool True)\<rparr>" 5000]
      update_delete_not_found [OF c3, of test_db "select_minus_password bob" "no_fields" 5000]
      n2 n9 y3 v
    by blast
qed

text \<open>
  C1 as stated fails: an update with an empty title, for an id that no task has, is
  answered with 400 by the validation, which runs before the lookup.
\<close>

theorem update_invalid_payload_counterexample:
  "Task_findOne test_env test_db ''id9'' (user_id (select_minus_password bob)) = Inr None
   \<and> put_task test_env 5000 test_db (select_minus_password bob) ''id9'' (no_fields\<lparr>body_title := Some []\<rparr>)
       = (test_db, 400, Message ''Title cannot be empty'')"
  by (simp add: fixture_defs put_task_def Task_findOne_def update_errors_def update_title_errors_def
      update_title_value_def description_errors_def description_value_def completed_errors_def utrim_def)

section \<open>Creating tasks\<close>

lemma create_errors_empty:
  "create_errors b = [] \<longleftrightarrow>
     utrim (toString (body_title b)) \<noteq> [] \<and> isLength_count (utrim (toString (body_title b))) \<le> 200
     \<and> (\<forall>s. body_description b = Some s \<longrightarrow> isLength_count (utrim s) \<le> 1000)"
  by (simp add: create_errors_def create_title_errors_empty description_errors_empty)

lemma post_task_reads_title_and_description:
  "post_task now d u (b\<lparr>body_user := owner, body_completed := flag\<rparr>) = post_task now d u b"
  by (simp add: post_task_def create_errors_def)

lemma length_toString_description:
  "(\<forall>s. body_description b = Some s \<longrightarrow> length (utrim s) \<le> 1000)
     \<longleftrightarrow> length (utrim (toString (body_description b))) \<le> 1000"
  by (cases "body_description b") (simp_all add: toString_simps utrim_Nil)

text \<open>
  Where the schema accepts the trimmed strings, that is a non-empty title of at most 200
  code units and a description of at most 1000, the request validation accepts them
  too, and \<^verbatim>\<open>POST /api/tasks\<close> inserts one task and answers 201 with it: its owner is
  the authenticated user, its \<^verbatim>\<open>completed\<close> flag is false, and its description is
  empty when the body has none. An owner or a \<^verbatim>\<open>completed\<close> value in the body changes
  nothing.
\<close>

lemma create_forces_owner_and_flag:
  assumes "utrim (toString (body_title b)) \<noteq> []"
    and "length (utrim (toString (body_title b))) \<le> 200"
    and "\<forall>s. body_description b = Some s \<longrightarrow> length (utrim s) \<le> 1000"
  shows "\<exists>t. post_task now d u b = (d\<lparr>tasks := tasks d @ [t], next_oid := Suc (next_oid d)\<rparr>, 201, TaskDoc t)
           \<and> task_user t = user_id u \<and> completed t = False
           \<and> (body_description b = None \<longrightarrow> description t = [])
           \<and> post_task now d u (b\<lparr>body_user := owner, body_completed := flag\<rparr>) = post_task now d u b"
proof -
  have "isLength_count (utrim (toString (body_title b))) \<le> 200"
    using assms(2) isLength_count_le [of "utrim (toString (body_title b))"] by linarith
  moreover have "\<forall>s. body_description b = Some s \<longrightarrow> isLength_count (utrim s) \<le> 1000"
    using assms(3) isLength_count_le order_trans by blast
  ultimately have "create_errors b = []" using assms(1) by (simp add: create_errors_empty)
  moreover have "length (utrim (toString (body_description b))) \<le> 1000"
    using assms(3) by (simp add: length_toString_description)
  ultimately show ?thesis
    using assms(2)
    by (simp add: post_task_accepts post_task_reads_title_and_description toString_simps utrim_Nil)
qed

text \<open>
  C5. The claim promises a created task with status 201 for every valid input. Between
  the two counts the code does not keep it: a title of 150 characters outside the basic
  plane has 150 characters by the count of the request validation, which lets it pass,
  and 300 code units by the count of the schema, which rejects it, so that
  \<^verbatim>\<open>Task.create\<close> throws and the handler answers 500 "Server error while creating
  task" without creating anything.
\<close>

theorem create_astral_title_server_error:
  "isLength_count (concat (replicate 150 [0xD83D, 0xDE00])) = 150
   \<and> length (concat (replicate 150 [0xD83D, 0xDE00 :: uchar])) = 300
   \<and> create_errors (no_fields\<lparr>body_title := Some (concat (replicate 150 [0xD83D, 0xDE00]))\<rparr>) = []
   \<and> post_task 5000 test_db (select_minus_password alice)
        (no_fields\<lparr>body_title := Some (concat (replicate 150 [0xD83D, 0xDE00]))\<rparr>)
     = (test_db, 500, Message ''Server error while creating task'')"
proof -
  define b where "b = no_fields\<lparr>body_title := Some (concat (replicate 150 [0xD83D, 0xDE00 :: uchar]))\<rparr>"
  have t: "utrim (toString (body_title b)) = concat (replicate 150 [0xD83D, 0xDE00])"
    by (simp add: b_def toString_simps utrim_astral)
  have ne: "concat (replicate 150 [0xD83D, 0xDE00 :: uchar]) \<noteq> []"
    using length_astral [of 150] by auto
  have c: "create_errors b = []"
    by (simp add: create_errors_empty t isLength_count_astral ne) (simp add: b_def no_fields_def)
  have "200 < length (utrim (toString (body_title b)))"
    by (simp add: t length_astral)
  with c have "post_task 5000 test_db (select_minus_password alice) b
      = (test_db, 500, Message ''Server error while creating task'')"
    by (simp add: post_task_schema_rejects)
  with c show ?thesis
    by (simp add: b_def isLength_count_astral length_astral)
qed

text \<open>
  C8 (as amended). \<^verbatim>\<open>POST /api/tasks\<close> answers 400 with the first failing message
  and leaves the database unchanged whenever the title is absent or empty after trimming
  ("Task title is required"), the trimmed title is longer than 200 characters, or the
  trimmed title is fine and the trimmed description is longer than 1000 characters; a
  title error is reported before a description error. The characters are counted as the
  request validation counts them.
\<close>

theorem create_validation_errors:
  "(utrim (toString (body_title b)) = [] \<longrightarrow>
      post_task now d u b = (d, 400, Message ''Task title is required''))
   \<and> (200 < isLength_count (utrim (toString (body_title b))) \<longrightarrow>
      post_task now d u b = (d, 400, Message ''Title cannot exceed 200 characters''))
   \<and> (\<forall>s. utrim (toString (body_title b)) \<noteq> [] \<and> isLength_count (utrim (toString (body_title b))) \<le> 200
          \<and> body_description b = Some s \<and> 1000 < isLength_count (utrim s) \<longrightarrow>
      post_task now d u b = (d, 400, Message ''Description cannot exceed 1000 characters''))
   \<and> (\<forall>s. body_description b = Some s \<and> 1000 < isLength_count (utrim s) \<longrightarrow>
      fst (post_task now d u b) = d \<and> fst (snd (post_task now d u b)) = 400)"
  by (auto simp: post_task_def create_errors_def create_title_errors_def create_title_value_def
      description_errors_def description_value_def Let_def isLength_count_Nil)

lemma trim_replicate_x: "trim (replicate n (CHR ''x'')) = replicate n (CHR ''x'')"
  by (rule trim_fixed) (cases n; simp add: no_surrounding_space_def is_space_def)

theorem create_validation_errors_witness:
  "post_task 5000 test_db (select_minus_password alice) (no_fields\<lparr>body_title := Some []\<rparr>)
     = (test_db, 400, Message ''Task title is required'')
   \<and> post_task 5000 test_db (select_minus_password alice)
        (no_fields\<lparr>body_title := Some (utf16 (replicate 201 (CHR ''x'')))\<rparr>)
     = (test_db, 400, Message ''Title cannot exceed 200 characters'')
   \<and> post_task 5000 test_db (select_minus_password alice)
        (no_fields\<lparr>body_title := Some (utf16 ''a''), body_description := Some (utf16 (replicate 1001 (CHR ''x'')))\<rparr>)
     = (test_db, 400, Message ''Description cannot exceed 1000 characters'')"
proof -
  have a: "trim ''a'' = ''a''" by (simp add: trim_def is_space_def)
  show ?thesis
    using create_validation_errors [of "no_fields\<lparr>body_title := Some []\<rparr>" 5000 test_db "select_minus_password alice"]
      create_validation_errors [of "no_fields\<lparr>body_title := Some (utf16 (replicate 201 (CHR ''x'')))\<rparr>" 5000 test_db "select_minus_password alice"]
      create_validation_errors [of "no_fields\<lparr>body_title := Some (utf16 ''a''), body_description := Some (utf16 (replicate 1001 (CHR ''x'')))\<rparr>" 5000 test_db "select_minus_password alice"]
    by (simp add: no_fields_def toString_def utrim_Nil utrim_utf16 utf16_simps trim_replicate_x a)
qed

lemma trim_padded: "\<not> is_space a \<Longrightarrow> trim (a # replicate n (CHR '' '')) = [a]"
proof -
  assume a: "\<not> is_space a"
  have "dropWhile is_space (replicate n (CHR '' '') @ [a]) = [a]"
    using a by (induction n) (simp_all add: is_space_def)
  with a show ?thesis by (simp add: trim_def)
qed

text \<open>
  C8 as stated fails: a title of 201 characters, a letter followed by 200 spaces, is
  trimmed to one character before its length is checked, and the task is created.
\<close>

theorem create_padded_title_counterexample:
  "length (utf16 (CHR ''a'' # replicate 200 (CHR '' ''))) = 201
   \<and> isLength_count (utf16 (CHR ''a'' # replicate 200 (CHR '' ''))) = 201
   \<and> post_task 5000 empty_db (select_minus_password alice)
        (no_fields\<lparr>body_title := Some (utf16 (CHR ''a'' # replicate 200 (CHR '' '')))\<rparr>)
     = (\<lparr>users = [],
         tasks = [\<lparr>task_id = 0, task_user = 0, title = utf16 ''a'', description = [],
                   completed = False, createdAt = 5000, updatedAt = 5000\<rparr>],
         next_oid = 1\<rparr>,
        201,
        TaskDoc \<lparr>task_id = 0, task_user = 0, title = utf16 ''a'', description = [],
                 completed = False, createdAt = 5000, updatedAt = 5000\<rparr>)"
proof -
  define b where "b = no_fields\<lparr>body_title := Some (utf16 (CHR ''a'' # replicate 200 (CHR '' '')))\<rparr>"
  have t: "trim (CHR ''a'' # replicate 200 (CHR '' '')) = ''a''"
    by (rule trim_padded) (simp add: is_space_def)
  have u: "utrim (toString (body_title b)) = utf16 ''a''"
    "utrim (toString (body_description b)) = []"
    by (simp_all add: b_def no_fields_def toString_def utrim_utf16 t utrim_Nil)
  have "create_errors b = []"
    by (simp add: create_errors_empty u utf16_simps) (simp add: b_def no_fields_def)
  then have "post_task 5000 empty_db (select_minus_password alice) b
     = (\<lparr>users = [],
         tasks = [\<lparr>task_id = 0, task_user = 0, title = utf16 ''a'', description = [],
                   completed = False, createdAt = 5000, updatedAt = 5000\<rparr>],
         next_oid = 1\<rparr>,
        201,
        TaskDoc \<lparr>task_id = 0, task_user = 0, title = utf16 ''a'', description = [],
                 completed = False, createdAt = 5000, updatedAt = 5000\<rparr>)"
    by (simp add: post_task_accepts u utf16_simps) (simp add: fixture_defs)
  then show ?thesis by (simp add: b_def utf16_simps)
qed

section \<open>The concrete database is one the server reaches\<close>

lemma trim_task_examples:
  "utrim (utf16 ''Buy milk '') = utf16 ''Buy milk''"
  "utrim (utf16 ''Buy milk'') = utf16 ''Buy milk''"
  "utrim (utf16 '' Buy milk '') = utf16 ''Buy milk''"
  "utrim (utf16 ''Pay rent'') = utf16 ''Pay rent''"
  "utrim (utf16 ''by Friday'') = utf16 ''by Friday''"
  "utrim (utf16 ''Call mum'') = utf16 ''Call mum''"
  "utrim (utf16 '' Call mum  '') = utf16 ''Call mum''"
  "utrim (utf16 '' two litres '') = utf16 ''two litres''"
  by (simp_all add: utrim_utf16 trim_def is_space_def)

lemma test_db_reachable: "reachable test_env test_db"
proof -
  define d1 where "d1 = fst (handle test_env 1000 ''salt'' empty_db
      (Register \<lparr>reg_username = ''alice'', reg_email = ''Alice@Example.com'', reg_password = JStr ''secret1''\<rparr>))"
  define d2 where "d2 = fst (handle test_env 1500 ''salt'' d1
      (Register \<lparr>reg_username = '' bob'', reg_email = ''bob@example.com'', reg_password = JStr ''secret2''\<rparr>))"
  define d3 where "d3 = fst (handle test_env 2000 ''salt'' d2
      (PostTask (Some ''Bearer tokA'') (no_fields\<lparr>body_title := Some (utf16 ''Buy milk '')\<rparr>)))"
  define d4 where "d4 = fst (handle test_env 3000 ''salt'' d3
      (PostTask (Some ''Bearer tokB'')
         (no_fields\<lparr>body_title := Some (utf16 ''Pay rent''), body_description := Some (utf16 ''by Friday'')\<rparr>)))"
  have r1: "reachable test_env d1" unfolding d1_def by (rule reachable_step [OF reachable_empty])
  have r2: "reachable test_env d2" unfolding d2_def by (rule reachable_step [OF r1])
  have r3: "reachable test_env d3" unfolding d3_def by (rule reachable_step [OF r2])
  have r4: "reachable test_env d4" unfolding d4_def by (rule reachable_step [OF r3])
  have low: "toLowerCase ''Alice@Example.com'' = ''alice@example.com''"
    "toLowerCase ''alice@example.com'' = ''alice@example.com''"
    "toLowerCase ''bob@example.com'' = ''bob@example.com''"
    by code_simp+
  have e1: "d1 = \<lparr>users = [alice], tasks = [], next_oid = 1\<rparr>"
    unfolding d1_def
    by (simp add: register_def register_errors_def User_findOne_email_def User_findOne_username_def
        User_create_def user_valid_def email_setter_def low stringify_def
        trim_def is_space_def Let_def fixture_defs)
  have e2: "d2 = \<lparr>users = [alice, bob], tasks = [], next_oid = 2\<rparr>"
    unfolding d2_def e1
    by (simp add: register_def register_errors_def User_findOne_email_def User_findOne_username_def
        User_create_def user_valid_def email_setter_def low stringify_def
        trim_def is_space_def Let_def fixture_defs)
  have pa: "protect test_env 2000 d2 (Some ''Bearer tokA'') = Inr (select_minus_password alice)"
    unfolding e2
    by (simp add: protect_def startsWith_def bearer_token_def index_opt_def jwt_verify_def
        User_findById_def fixture_defs)
  have e3: "d3 = \<lparr>users = [alice, bob], tasks = [alice_task], next_oid = 3\<rparr>"
    unfolding d3_def
    by (simp add: protected_def pa)
       (simp add: e2 post_task_outcome create_errors_empty toString_def no_fields_def
        trim_task_examples utf16_simps utrim_Nil alice_task_def select_minus_password_def alice_def)
  have pb: "protect test_env 3000 d3 (Some ''Bearer tokB'') = Inr (select_minus_password bob)"
    unfolding e3
    by (simp add: protect_def startsWith_def bearer_token_def index_opt_def jwt_verify_def
        User_findById_def fixture_defs)
  have e4: "d4 = test_db"
    unfolding d4_def
    by (simp add: protected_def pb)
       (simp add: e3 post_task_outcome create_errors_empty toString_def no_fields_def
        trim_task_examples utf16_simps utrim_Nil bob_task_def test_db_def select_minus_password_def bob_def)
  from r4 e4 show ?thesis by simp
qed

section \<open>Partial updates\<close>

lemma title_constraints_agree:
  "(update_title_errors (Some s) = []) = (create_title_errors (Some s) = [])"
  by (simp add: update_title_errors_empty create_title_errors_empty toString_simps)

lemma cast_boolean_values:
  "cast_boolean (JBool v) = Some v"
  "cast_boolean (JNum 1) = Some True" "cast_boolean (JStr ''true'') = Some True"
  "cast_boolean (JStr ''1'') = Some True"
  "cast_boolean (JNum 0) = Some False" "cast_boolean (JStr ''false'') = Some False"
  "cast_boolean (JStr ''0'') = Some False"
  by (simp_all add: cast_boolean_def)

text \<open>
  C6. In every database the server reaches, for every task that the lookup by id and
  owner finds and every body, \<^verbatim>\<open>PUT /api/tasks/:id\<close> has one of three outcomes. A body
  that fails the request validation is answered 400 with the first message; a body that
  passes it with a title of more than 200 code units or a description of more than
  1000, which the schema rejects as it does on create, is answered 500; in both cases
  nothing changes. Every other body is answered 200 with the updated task, which takes
  the place of the stored task with that id while every other stored task stays as it
  is. In the updated task a field that the body has is assigned (the title and the
  description trimmed; \<^verbatim>\<open>completed\<close> true for true, 1, "true" and "1", false for
  false, 0, "false" and "0"), a field that the body has not keeps its value, and id,
  owner and creation instant never change; the update stamp is the current instant
  when a field changed, and the task is the stored one when none did. A title passes
  the request validation of the update exactly when it passes that of create, and the
  description chain and the schema are the same for both.
\<close>

theorem update_applies_present_fields:
  assumes "reachable e d"
    and "castObjectId e ident = Some i"
    and "find (\<lambda>x. task_id x = i \<and> task_user x = user_id u) (tasks d) = Some t"
  shows "(update_errors b \<noteq> [] \<longrightarrow> put_task e now d u ident b = (d, 400, Message (hd (update_errors b))))
       \<and> (update_errors b = []
            \<and> ((\<exists>s. body_title b = Some s \<and> 200 < length (utrim s))
                \<or> (\<exists>s. body_description b = Some s \<and> 1000 < length (utrim s))) \<longrightarrow>
            put_task e now d u ident b = (d, 500, Message ''Server error while updating task''))
       \<and> (update_errors b = []
            \<and> (\<forall>s. body_title b = Some s \<longrightarrow> length (utrim s) \<le> 200)
            \<and> (\<forall>s. body_description b = Some s \<longrightarrow> length (utrim s) \<le> 1000) \<longrightarrow>
            (\<exists>t'. put_task e now d u ident b
                    = (d\<lparr>tasks := map (\<lambda>x. if task_id x = i then t' else x) (tasks d)\<rparr>, 200, TaskDoc t')
              \<and> title t' = (case body_title b of None \<Rightarrow> title t | Some s \<Rightarrow> utrim s)
              \<and> description t' = (case body_description b of None \<Rightarrow> description t | Some s \<Rightarrow> utrim s)
              \<and> (body_completed b = None \<longrightarrow> completed t' = completed t)
              \<and> (\<forall>v. body_completed b = Some (JBool v) \<longrightarrow> completed t' = v)
              \<and> (body_completed b = Some (JNum 1) \<or> body_completed b = Some (JStr ''true'')
                   \<or> body_completed b = Some (JStr ''1'') \<longrightarrow> completed t')
              \<and> (body_completed b = Some (JNum 0) \<or> body_completed b = Some (JStr ''false'')
                   \<or> body_completed b = Some (JStr ''0'') \<longrightarrow> \<not> completed t')
              \<and> task_id t' = task_id t \<and> task_user t' = task_user t \<and> createdAt t' = createdAt t
              \<and> (t' = t \<or> updatedAt t' = now)
              \<and> (title t' = title t \<and> description t' = description t \<and> completed t' = completed t
                   \<longrightarrow> t' = t)))
       \<and> (update_title_errors (Some s) = []) = (create_title_errors (Some s) = [])"
proof -
  from assms(3) have m: "t \<in> set (tasks d)" "task_id t = i" "task_user t = user_id u"
    by (auto dest: find_some_holds)
  with assms(1) have tv: "task_valid t"
    using reachable_stored_ok [of e d] by (auto simp: stored_ok_def)
  from assms(1) have dist: "distinct (map task_id (tasks d))"
    using reachable_ids_ok [of e d] by (simp add: ids_ok_def)
  have 1: "update_errors b \<noteq> [] \<longrightarrow> put_task e now d u ident b = (d, 400, Message (hd (update_errors b)))"
    using put_task_rejects [of b e now d u ident] by blast
  have 2: "update_errors b = []
            \<and> ((\<exists>s. body_title b = Some s \<and> 200 < length (utrim s))
                \<or> (\<exists>s. body_description b = Some s \<and> 1000 < length (utrim s))) \<longrightarrow>
            put_task e now d u ident b = (d, 500, Message ''Server error while updating task'')"
    using put_task_schema_rejects [OF assms(2) assms(3), of b now] by blast
  have 3: "\<exists>t'. put_task e now d u ident b
                    = (d\<lparr>tasks := map (\<lambda>x. if task_id x = i then t' else x) (tasks d)\<rparr>, 200, TaskDoc t')
              \<and> title t' = (case body_title b of None \<Rightarrow> title t | Some s \<Rightarrow> utrim s)
              \<and> description t' = (case body_description b of None \<Rightarrow> description t | Some s \<Rightarrow> utrim s)
              \<and> (body_completed b = None \<longrightarrow> completed t' = completed t)
              \<and> (\<forall>v. body_completed b = Some (JBool v) \<longrightarrow> completed t' = v)
              \<and> (body_completed b = Some (JNum 1) \<or> body_completed b = Some (JStr ''true'')
                   \<or> body_completed b = Some (JStr ''1'') \<longrightarrow> completed t')
              \<and> (body_completed b = Some (JNum 0) \<or> body_completed b = Some (JStr ''false'')
                   \<or> body_completed b = Some (JStr ''0'') \<longrightarrow> \<not> completed t')
              \<and> task_id t' = task_id t \<and> task_user t' = task_user t \<and> createdAt t' = createdAt t
              \<and> (t' = t \<or> updatedAt t' = now)
              \<and> (title t' = title t \<and> description t' = description t \<and> completed t' = completed t
                   \<longrightarrow> t' = t)"
    if v: "update_errors b = []"
      and st: "\<forall>s. body_title b = Some s \<longrightarrow> length (utrim s) \<le> 200"
      and sd: "\<forall>s. body_description b = Some s \<longrightarrow> length (utrim s) \<le> 1000"
  proof -
    obtain t' where p: "put_task e now d u ident b
                 = (d\<lparr>tasks := replace_first (\<lambda>x. task_id x = i) t' (tasks d)\<rparr>, 200, TaskDoc t')"
      and f: "title t' = (case body_title b of None \<Rightarrow> title t | Some s \<Rightarrow> utrim s)"
        "description t' = (case body_description b of None \<Rightarrow> description t | Some s \<Rightarrow> utrim s)"
        "body_completed b = None \<longrightarrow> completed t' = completed t"
      and c: "\<forall>c. body_completed b = Some c \<longrightarrow> cast_boolean c = Some (completed t')"
      and k: "task_id t' = i" "task_user t' = user_id u" "createdAt t' = createdAt t"
      and stamp: "updatedAt t' = (if t' = t then updatedAt t else now)"
      and same: "title t' = title t \<and> description t' = description t \<and> completed t' = completed t
                \<longrightarrow> t' = t"
      using put_task_found [OF assms(2) assms(3) v tv st sd, of now]
      by (elim exE conjE) (rule that; assumption)
    have w: "replace_first (\<lambda>x. task_id x = i) t' (tasks d)
               = map (\<lambda>x. if task_id x = i then t' else x) (tasks d)"
      using dist k(1) by (rule replace_first_distinct)
    have cb: "\<forall>v. body_completed b = Some (JBool v) \<longrightarrow> completed t' = v"
      using c by (auto simp: cast_boolean_values)
    have ct: "body_completed b = Some (JNum 1) \<or> body_completed b = Some (JStr ''true'')
                   \<or> body_completed b = Some (JStr ''1'') \<longrightarrow> completed t'"
      using c by (auto simp: cast_boolean_values)
    have cf: "body_completed b = Some (JNum 0) \<or> body_completed b = Some (JStr ''false'')
                   \<or> body_completed b = Some (JStr ''0'') \<longrightarrow> \<not> completed t'"
      using c by (auto simp: cast_boolean_values)
    have st': "t' = t \<or> updatedAt t' = now"
      using stamp by (cases "t' = t") simp_all
    have p': "put_task e now d u ident b
        = (d\<lparr>tasks := map (\<lambda>x. if task_id x = i then t' else x) (tasks d)\<rparr>, 200, TaskDoc t')"
      using p w by simp
    have k': "task_id t' = task_id t" "task_user t' = task_user t"
      using k m by simp_all
    show ?thesis
      by (intro exI [of _ t'] conjI) (fact p' f cb ct cf k' k(3) st' same)+
  qed
  from 1 2 3 title_constraints_agree [of s] show ?thesis by blast
qed

theorem update_applies_present_fields_witness:
  "put_task test_env 5000 test_db (select_minus_password bob) ''id3''
      (no_fields\<lparr>body_completed := Some (JBool True)\<rparr>)
   = (test_db\<lparr>tasks := [alice_task, bob_task\<lparr>completed := True, updatedAt := 5000\<rparr>]\<rparr>, 200,
      TaskDoc (bob_task\<lparr>completed := True, updatedAt := 5000\<rparr>))
   \<and> put_task test_env 6000 test_db (select_minus_password alice) ''id2''
      (no_fields\<lparr>body_description := Some (utf16 '' two litres ''), body_completed := Some (JStr ''0'')\<rparr>)
   = (test_db\<lparr>tasks := [alice_task\<lparr>description := utf16 ''two litres'', updatedAt := 6000\<rparr>, bob_task]\<rparr>, 200,
      TaskDoc (alice_task\<lparr>description := utf16 ''two litres'', updatedAt := 6000\<rparr>))
   \<and> put_task test_env 5000 test_db (select_minus_password alice) ''id2''
      (no_fields\<lparr>body_title := Some (concat (replicate 150 [0xD83D, 0xDE00]))\<rparr>)
   = (test_db, 500, Message ''Server error while updating task'')
   \<and> put_task test_env 5000 test_db (select_minus_password alice) ''id2''
      (no_fields\<lparr>body_title := Some []\<rparr>)
   = (test_db, 400, Message ''Title cannot be empty'')"
proof -
  have c2: "castObjectId test_env ''id2'' = Some 2" and c3: "castObjectId test_env ''id3'' = Some 3"
    by (simp_all add: test_env_def)
  have f2: "find (\<lambda>x. task_id x = 2 \<and> task_user x = user_id (select_minus_password alice)) (tasks test_db)
            = Some alice_task"
    and f3: "find (\<lambda>x. task_id x = 3 \<and> task_user x = user_id (select_minus_password bob)) (tasks test_db)
            = Some bob_task"
    by (simp_all add: fixture_defs)
  note thm2 = update_applies_present_fields [OF test_db_reachable c2 f2]
  note thm3 = update_applies_present_fields [OF test_db_reachable c3 f3]
  \<comment> \<open>the second stored task, completed set to true\<close>
  define b1 where "b1 = no_fields\<lparr>body_completed := Some (JBool True)\<rparr>"
  have v1: "update_errors b1 = []"
    by (simp add: b1_def no_fields_def update_errors_def update_title_errors_def update_title_value_def
        description_errors_def description_value_def completed_errors_def stringify_def isBoolean_def)
  obtain t1 where p1: "put_task test_env 5000 test_db (select_minus_password bob) ''id3'' b1
        = (test_db\<lparr>tasks := map (\<lambda>x. if task_id x = 3 then t1 else x) (tasks test_db)\<rparr>, 200, TaskDoc t1)"
    and k1: "title t1 = title bob_task" "description t1 = description bob_task" "completed t1"
      "task_id t1 = task_id bob_task" "task_user t1 = task_user bob_task"
      "createdAt t1 = createdAt bob_task" "t1 = bob_task \<or> updatedAt t1 = 5000"
    using thm3 [of b1 5000] v1 by (auto simp: b1_def no_fields_def)
  from k1(3) have "t1 \<noteq> bob_task" by (auto simp: bob_task_def)
  with k1(7) have "updatedAt t1 = 5000" by simp
  with k1 have e1: "t1 = bob_task\<lparr>completed := True, updatedAt := 5000\<rparr>"
    by (intro task.equality) simp_all
  have r1: "put_task test_env 5000 test_db (select_minus_password bob) ''id3'' b1
     = (test_db\<lparr>tasks := [alice_task, bob_task\<lparr>completed := True, updatedAt := 5000\<rparr>]\<rparr>, 200,
        TaskDoc (bob_task\<lparr>completed := True, updatedAt := 5000\<rparr>))"
    unfolding p1 e1 by (simp add: test_db_def alice_task_def bob_task_def)
  \<comment> \<open>the first stored task, a description assigned and completed left false\<close>
  define b2 where "b2 = no_fields\<lparr>body_description := Some (utf16 '' two litres ''), body_completed := Some (JStr ''0'')\<rparr>"
  have v2: "update_errors b2 = []"
    by (simp add: b2_def no_fields_def update_errors_empty update_title_errors_empty
        description_errors_empty completed_errors_empty stringify_def isBoolean_def
        trim_task_examples utf16_simps)
  have s2: "\<forall>s. body_title b2 = Some s \<longrightarrow> length (utrim s) \<le> 200"
    "\<forall>s. body_description b2 = Some s \<longrightarrow> length (utrim s) \<le> 1000"
    by (simp_all add: b2_def no_fields_def trim_task_examples utf16_simps)
  obtain t2 where p2: "put_task test_env 6000 test_db (select_minus_password alice) ''id2'' b2
        = (test_db\<lparr>tasks := map (\<lambda>x. if task_id x = 2 then t2 else x) (tasks test_db)\<rparr>, 200, TaskDoc t2)"
    and k2: "title t2 = title alice_task" "description t2 = utf16 ''two litres''" "\<not> completed t2"
      "task_id t2 = task_id alice_task" "task_user t2 = task_user alice_task"
      "createdAt t2 = createdAt alice_task" "t2 = alice_task \<or> updatedAt t2 = 6000"
    using thm2 [of b2 6000] v2 s2 by (auto simp: b2_def no_fields_def trim_task_examples)
  from k2(2) have "t2 \<noteq> alice_task" by (auto simp: alice_task_def utf16_simps)
  with k2(7) have "updatedAt t2 = 6000" by simp
  with k2 have e2: "t2 = alice_task\<lparr>description := utf16 ''two litres'', updatedAt := 6000\<rparr>"
    by (intro task.equality) (simp_all add: alice_task_def)
  have r2: "put_task test_env 6000 test_db (select_minus_password alice) ''id2'' b2
     = (test_db\<lparr>tasks := [alice_task\<lparr>description := utf16 ''two litres'', updatedAt := 6000\<rparr>, bob_task]\<rparr>, 200,
        TaskDoc (alice_task\<lparr>description := utf16 ''two litres'', updatedAt := 6000\<rparr>))"
    unfolding p2 e2 by (simp add: test_db_def alice_task_def bob_task_def)
  \<comment> \<open>a title that the request validation accepts and the schema rejects\<close>
  define b3 where "b3 = no_fields\<lparr>body_title := Some (concat (replicate 150 [0xD83D, 0xDE00 :: uchar]))\<rparr>"
  have ne: "concat (replicate 150 [0xD83D, 0xDE00 :: uchar]) \<noteq> []"
    using length_astral [of 150] by auto
  have v3: "update_errors b3 = []"
    by (simp add: b3_def no_fields_def update_errors_empty update_title_errors_empty
        description_errors_empty completed_errors_empty utrim_astral isLength_count_astral ne)
  have l3: "\<exists>s. body_title b3 = Some s \<and> 200 < length (utrim s)"
    by (simp add: b3_def no_fields_def utrim_astral length_astral)
  have r3: "put_task test_env 5000 test_db (select_minus_password alice) ''id2'' b3
     = (test_db, 500, Message ''Server error while updating task'')"
    using thm2 [of b3 5000] v3 l3 by blast
  \<comment> \<open>an empty title\<close>
  define b4 where "b4 = no_fields\<lparr>body_title := Some ([] :: ustring)\<rparr>"
  have v4: "update_errors b4 = [''Title cannot be empty'']"
    by (simp add: b4_def no_fields_def update_errors_def update_title_errors_def update_title_value_def
        description_errors_def description_value_def completed_errors_def utrim_Nil isLength_count_Nil)
  have r4: "put_task test_env 5000 test_db (select_minus_password alice) ''id2'' b4
     = (test_db, 400, Message ''Title cannot be empty'')"
    using thm2 [of b4 5000] v4 by simp
  from r1 r2 r3 r4 show ?thesis unfolding b1_def b2_def b3_def b4_def by blast
qed

section \<open>Trimming\<close>

lemma post_task_created:
  assumes "post_task now d u b = (d', 201, TaskDoc t)"
  shows "create_errors b = []
       \<and> t = \<lparr>task_id = next_oid d, task_user = user_id u, title = utrim (toString (body_title b)),
               description = utrim (toString (body_description b)), completed = False,
               createdAt = now, updatedAt = now\<rparr>
       \<and> d' = d\<lparr>tasks := tasks d @ [t], next_oid := Suc (next_oid d)\<rparr>"
  using assms by (auto simp: post_task_outcome split: if_splits)

text \<open>
  C10. The validators see the trimmed strings: the errors of a title or description are
  those of its trimmed form, and a title of whitespace only is answered 400 "Task title
  is required" with the database unchanged. A created task stores the trimmed title and
  description, and in every database the server reaches no stored title or description
  has whitespace at either end.
\<close>

theorem titles_and_descriptions_trimmed:
  "create_title_errors (Some s) = create_title_errors (Some (utrim s))
   \<and> update_title_errors (Some s) = update_title_errors (Some (utrim s))
   \<and> description_errors (Some s) = description_errors (Some (utrim s))
   \<and> ((\<forall>c \<in> set s. is_uspace c) \<longrightarrow>
        post_task now d u (b\<lparr>body_title := Some s\<rparr>) = (d, 400, Message ''Task title is required''))
   \<and> (post_task now d u b = (d', 201, TaskDoc t) \<longrightarrow>
        title t = utrim (toString (body_title b)) \<and> description t = utrim (toString (body_description b))
        \<and> t \<in> set (tasks d'))
   \<and> (reachable e d \<longrightarrow>
        (\<forall>x \<in> set (tasks d). no_surrounding_uspace (title x) \<and> no_surrounding_uspace (description x)))"
proof -
  have 1: "create_title_errors (Some s) = create_title_errors (Some (utrim s))"
    by (simp add: create_title_errors_def create_title_value_def toString_simps utrim_utrim)
  have 2: "update_title_errors (Some s) = update_title_errors (Some (utrim s))"
    by (simp add: update_title_errors_def update_title_value_def utrim_utrim)
  have 3: "description_errors (Some s) = description_errors (Some (utrim s))"
    by (simp add: description_errors_def description_value_def utrim_utrim)
  have 4: "(\<forall>c \<in> set s. is_uspace c) \<longrightarrow>
        post_task now d u (b\<lparr>body_title := Some s\<rparr>) = (d, 400, Message ''Task title is required'')"
    by (simp add: post_task_def create_errors_def create_title_errors_def create_title_value_def
        toString_simps utrim_empty_iff [symmetric] isLength_count_Nil)
  have 5: "post_task now d u b = (d', 201, TaskDoc t) \<longrightarrow>
        title t = utrim (toString (body_title b)) \<and> description t = utrim (toString (body_description b))
        \<and> t \<in> set (tasks d')"
    by (auto dest!: post_task_created)
  have 6: "reachable e d \<longrightarrow>
        (\<forall>x \<in> set (tasks d). no_surrounding_uspace (title x) \<and> no_surrounding_uspace (description x))"
    using reachable_stored_ok [of e d] by (auto simp: stored_ok_def)
  from 1 2 3 4 5 6 show ?thesis by blast
qed

theorem titles_and_descriptions_trimmed_witness:
  "post_task 5000 test_db (select_minus_password alice) (no_fields\<lparr>body_title := Some [0x20, 0x09, 0x3000]\<rparr>)
     = (test_db, 400, Message ''Task title is required'')
   \<and> post_task 5000 test_db (select_minus_password alice) (no_fields\<lparr>body_title := Some (utf16 '' Call mum  '')\<rparr>)
     = (test_db\<lparr>tasks := tasks test_db @ [call_mum], next_oid := 5\<rparr>, 201, TaskDoc call_mum)
   \<and> title call_mum = utrim (toString (Some (utf16 '' Call mum  '')))
   \<and> no_surrounding_uspace (title alice_task) \<and> no_surrounding_uspace (description alice_task)
   \<and> no_surrounding_uspace (title bob_task) \<and> no_surrounding_uspace (description bob_task)"
proof -
  define b where "b = no_fields\<lparr>body_title := Some (utf16 '' Call mum  '')\<rparr>"
  define d' where "d' = test_db\<lparr>tasks := tasks test_db @ [call_mum], next_oid := 5\<rparr>"
  have sp: "\<forall>c \<in> set [0x20, 0x09, 0x3000]. is_uspace c" by (simp add: is_uspace_def)
  have u: "utrim (toString (body_title b)) = utf16 ''Call mum''"
    "utrim (toString (body_description b)) = []"
    by (simp_all add: b_def no_fields_def toString_def trim_task_examples utrim_Nil)
  have "create_errors b = []"
    by (simp add: create_errors_empty u utf16_simps) (simp add: b_def no_fields_def)
  then have pt: "post_task 5000 test_db (select_minus_password alice) b = (d', 201, TaskDoc call_mum)"
    by (simp add: post_task_accepts u utf16_simps)
       (simp add: d'_def call_mum_def fixture_defs)
  have eq: "title call_mum = utrim (toString (body_title b))"
    using titles_and_descriptions_trimmed [where now = 5000 and d = test_db
        and u = "select_minus_password alice" and b = b and d' = d' and t = call_mum] pt
    by blast
  have rest: "post_task 5000 test_db (select_minus_password alice) (no_fields\<lparr>body_title := Some [0x20, 0x09, 0x3000]\<rparr>)
     = (test_db, 400, Message ''Task title is required'')
   \<and> (\<forall>x \<in> set (tasks test_db). no_surrounding_uspace (title x) \<and> no_surrounding_uspace (description x))"
    using titles_and_descriptions_trimmed [where s = "[0x20, 0x09, 0x3000]"
        and now = 5000 and d = test_db and u = "select_minus_password alice" and b = no_fields
        and e = test_env]
      sp test_db_reachable
    by blast
  from rest have "no_surrounding_uspace (title alice_task) \<and> no_surrounding_uspace (description alice_task)
      \<and> no_surrounding_uspace (title bob_task) \<and> no_surrounding_uspace (description bob_task)"
    by (simp add: test_db_def)
  with pt eq rest show ?thesis by (simp add: b_def d'_def no_fields_def)
qed

section \<open>Listing tasks\<close>

lemma Task_find_after_create:
  "Task_find (d\<lparr>tasks := tasks d @ [t], next_oid := n\<rparr>) (task_user t) = Task_find d (task_user t) @ [t]"
  by (simp add: Task_find_def)

text \<open>
  C4 (as amended). \<^verbatim>\<open>GET /api/tasks\<close> answers 200 with exactly the stored tasks of the
  authenticated user, each as often as it is stored, in descending order of creation
  instant, and changes nothing. When a create by the same user has just succeeded at an
  instant later than the creation of all that user's earlier tasks, the created task is
  the first element of the list; its title and description are the trimmed title and
  description of the request (the empty string for an absent description).
\<close>

theorem list_own_tasks_newest_first:
  "(\<exists>ts. get_tasks d u = (d, 200, TaskDocs ts)
        \<and> mset ts = filter_mset (\<lambda>t. task_user t = user_id u) (mset (tasks d))
        \<and> set ts = {t \<in> set (tasks d). task_user t = user_id u}
        \<and> sorted_wrt (\<lambda>a b. createdAt b \<le> createdAt a) ts)
   \<and> (post_task now d u b = (d', 201, TaskDoc t)
        \<and> (\<forall>x \<in> set (tasks d). task_user x = user_id u \<longrightarrow> createdAt x < now) \<longrightarrow>
        (\<exists>rest. get_tasks d' u = (d', 200, TaskDocs (t # rest)))
        \<and> title t = utrim (toString (body_title b))
        \<and> description t = utrim (toString (body_description b)))"
proof -
  have a: "\<exists>ts. get_tasks d u = (d, 200, TaskDocs ts)
        \<and> mset ts = filter_mset (\<lambda>t. task_user t = user_id u) (mset (tasks d))
        \<and> set ts = {t \<in> set (tasks d). task_user t = user_id u}
        \<and> sorted_wrt (\<lambda>a b. createdAt b \<le> createdAt a) ts"
    by (simp add: get_tasks_def Task_find_def sort_desc_mset sort_desc_set sort_desc_sorted)
  have b: "(\<exists>rest. get_tasks d' u = (d', 200, TaskDocs (t # rest)))
        \<and> title t = utrim (toString (body_title b))
        \<and> description t = utrim (toString (body_description b))"
    if p: "post_task now d u b = (d', 201, TaskDoc t)"
      and later: "\<forall>x \<in> set (tasks d). task_user x = user_id u \<longrightarrow> createdAt x < now"
  proof -
    from p have t: "t = \<lparr>task_id = next_oid d, task_user = user_id u, title = utrim (toString (body_title b)),
               description = utrim (toString (body_description b)), completed = False,
               createdAt = now, updatedAt = now\<rparr>"
      and d': "d' = d\<lparr>tasks := tasks d @ [t], next_oid := Suc (next_oid d)\<rparr>"
      by (auto dest!: post_task_created)
    have tu: "task_user t = user_id u" and tc: "createdAt t = now" by (simp_all add: t)
    have "Task_find d' (user_id u) = Task_find d (user_id u) @ [t]"
      unfolding d' using Task_find_after_create [where d = d and t = t and n = "Suc (next_oid d)"] by (simp add: tu)
    moreover have "\<forall>x \<in> set (Task_find d (user_id u)). createdAt x < createdAt t"
      using later by (simp add: Task_find_def tc)
    ultimately have "sort_createdAt_desc (Task_find d' (user_id u)) = t # sort_createdAt_desc (Task_find d (user_id u))"
      by (simp add: sort_desc_newest_last)
    then have "get_tasks d' u = (d', 200, TaskDocs (t # sort_createdAt_desc (Task_find d (user_id u))))"
      by (simp add: get_tasks_def)
    then show ?thesis by (auto simp: t)
  qed
  from a b show ?thesis by blast
qed

theorem list_own_tasks_newest_first_witness:
  "get_tasks test_db (select_minus_password alice) = (test_db, 200, TaskDocs [alice_task])
   \<and> post_task 5000 test_db (select_minus_password alice) (no_fields\<lparr>body_title := Some (utf16 ''Call mum'')\<rparr>)
       = (test_db\<lparr>tasks := tasks test_db @ [call_mum], next_oid := 5\<rparr>, 201, TaskDoc call_mum)
   \<and> get_tasks (test_db\<lparr>tasks := tasks test_db @ [call_mum], next_oid := 5\<rparr>) (select_minus_password alice)
       = (test_db\<lparr>tasks := tasks test_db @ [call_mum], next_oid := 5\<rparr>, 200, TaskDocs [call_mum, alice_task])
   \<and> title call_mum = utf16 ''Call mum'' \<and> description call_mum = []"
proof -
  define b where "b = no_fields\<lparr>body_title := Some (utf16 ''Call mum'')\<rparr>"
  define d' where "d' = test_db\<lparr>tasks := tasks test_db @ [call_mum], next_oid := 5\<rparr>"
  have u: "utrim (toString (body_title b)) = utf16 ''Call mum''"
    "utrim (toString (body_description b)) = []"
    by (simp_all add: b_def no_fields_def toString_def trim_task_examples utrim_Nil)
  have "create_errors b = []"
    by (simp add: create_errors_empty u utf16_simps) (simp add: b_def no_fields_def)
  then have pt: "post_task 5000 test_db (select_minus_password alice) b = (d', 201, TaskDoc call_mum)"
    by (simp add: post_task_accepts u utf16_simps)
       (simp add: d'_def call_mum_def fixture_defs)
  have later: "\<forall>x \<in> set (tasks test_db). task_user x = user_id (select_minus_password alice) \<longrightarrow> createdAt x < 5000"
    by (simp add: fixture_defs)
  have g0: "get_tasks test_db (select_minus_password alice) = (test_db, 200, TaskDocs [alice_task])"
    by (simp add: get_tasks_def Task_find_def fixture_defs)
  obtain ts rest where l0: "get_tasks test_db (select_minus_password alice) = (test_db, 200, TaskDocs ts)"
      "set ts = {t \<in> set (tasks test_db). task_user t = user_id (select_minus_password alice)}"
    and l1: "get_tasks d' (select_minus_password alice) = (d', 200, TaskDocs (call_mum # rest))"
    and tt: "title call_mum = utrim (toString (body_title b))"
      "description call_mum = utrim (toString (body_description b))"
    using list_own_tasks_newest_first [of test_db "select_minus_password alice" 5000 b d' call_mum] pt later
    by blast
  have g1: "get_tasks d' (select_minus_password alice) = (d', 200, TaskDocs [call_mum, alice_task])"
    by (simp add: get_tasks_def Task_find_def d'_def call_mum_def fixture_defs)
  from tt have "title call_mum = utf16 ''Call mum''" "description call_mum = []"
    by (simp_all add: u)
  with pt g0 g1 show ?thesis unfolding b_def d'_def by blast
qed

text \<open>
  C4 as stated fails: after a create with the title \<open>'' Buy milk ''\<close> the first element of
  the list has the title \<open>''Buy milk''\<close>, which is not the title that was sent.
\<close>

theorem list_after_create_padded_counterexample:
  "post_task 5000 empty_db (select_minus_password alice) (no_fields\<lparr>body_title := Some (utf16 '' Buy milk '')\<rparr>)
     = (\<lparr>users = [],
         tasks = [\<lparr>task_id = 0, task_user = 0, title = utf16 ''Buy milk'', description = [],
                   completed = False, createdAt = 5000, updatedAt = 5000\<rparr>],
         next_oid = 1\<rparr>,
        201,
        TaskDoc \<lparr>task_id = 0, task_user = 0, title = utf16 ''Buy milk'', description = [],
                 completed = False, createdAt = 5000, updatedAt = 5000\<rparr>)
   \<and> get_tasks \<lparr>users = [],
         tasks = [\<lparr>task_id = 0, task_user = 0, title = utf16 ''Buy milk'', description = [],
                   completed = False, createdAt = 5000, updatedAt = 5000\<rparr>],
         next_oid = 1\<rparr> (select_minus_password alice)
     = (\<lparr>users = [],
         tasks = [\<lparr>task_id = 0, task_user = 0, title = utf16 ''Buy milk'', description = [],
                   completed = False, createdAt = 5000, updatedAt = 5000\<rparr>],
         next_oid = 1\<rparr>,
        200,
        TaskDocs [\<lparr>task_id = 0, task_user = 0, title = utf16 ''Buy milk'', description = [],
                   completed = False, createdAt = 5000, updatedAt = 5000\<rparr>])
   \<and> utf16 ''Buy milk'' \<noteq> utf16 '' Buy milk ''"
proof -
  define b where "b = no_fields\<lparr>body_title := Some (utf16 '' Buy milk '')\<rparr>"
  have u: "utrim (toString (body_title b)) = utf16 ''Buy milk''"
    "utrim (toString (body_description b)) = []"
    by (simp_all add: b_def no_fields_def toString_def trim_task_examples utrim_Nil)
  have "create_errors b = []"
    by (simp add: create_errors_empty u utf16_simps) (simp add: b_def no_fields_def)
  then have "post_task 5000 empty_db (select_minus_password alice) b
     = (\<lparr>users = [],
         tasks = [\<lparr>task_id = 0, task_user = 0, title = utf16 ''Buy milk'', description = [],
                   completed = False, createdAt = 5000, updatedAt = 5000\<rparr>],
         next_oid = 1\<rparr>,
        201,
        TaskDoc \<lparr>task_id = 0, task_user = 0, title = utf16 ''Buy milk'', description = [],
                 completed = False, createdAt = 5000, updatedAt = 5000\<rparr>)"
    by (simp add: post_task_accepts u utf16_simps) (simp add: fixture_defs)
  then show ?thesis
    by (simp add: b_def get_tasks_def Task_find_def fixture_defs utf16_simps)
qed

section \<open>Login\<close>

lemma toLowerCase_examples:
  "toLowerCase ''alice@example.com'' = ''alice@example.com''"
  "toLowerCase ''nobody@example.com'' = ''nobody@example.com''"
  "toLowerCase ''carol@example.com'' = ''carol@example.com''"
  "toLowerCase ''nobody'' = ''nobody''"
  by code_simp+

lemma trim_examples:
  "trim ''alice@example.com'' = ''alice@example.com''"
  "trim ''nobody@example.com'' = ''nobody@example.com''"
  "trim ''carol@example.com'' = ''carol@example.com''"
  "trim ''nobody'' = ''nobody''"
  "trim ''bob'' = ''bob''"
  "trim ''carol'' = ''carol''"
  by (simp_all add: trim_def is_space_def)

lemma stringify_simps:
  "stringify (JStr s) = s" "stringify (JBool True) = ''true''" "stringify (JBool False) = ''false''"
  by (simp_all add: stringify_def)

lemma stringify_number: "stringify (JNum n) \<noteq> []"
  by (simp add: stringify_def digits10_nonempty)

lemma login_validation_first:
  "login_errors e b \<noteq> [] \<Longrightarrow> login e now d b = (d, 400, Message (hd (login_errors e b)))"
  by (simp add: login_def)

lemma login_errors_empty:
  "login_errors e b = [] \<longleftrightarrow> isEmail e (login_email b) \<and> stringify (login_password b) \<noteq> []"
  by (simp add: login_errors_def)

lemma login_unknown_email:
  "isEmail e (login_email b) \<Longrightarrow> stringify (login_password b) \<noteq> [] \<Longrightarrow>
   User_findOne_email d (normalizeEmail e (login_email b)) = None \<Longrightarrow>
   login e now d b = (d, 401, Message ''Invalid email or password'')"
  by (simp add: login_def login_errors_def)

lemma login_wrong_password:
  "isEmail e (login_email b) \<Longrightarrow> login_password b = JStr pw \<Longrightarrow> pw \<noteq> [] \<Longrightarrow>
   User_findOne_email d (normalizeEmail e (login_email b)) = Some x \<Longrightarrow> password x = Some h \<Longrightarrow>
   \<not> bcrypt_compare e pw h \<Longrightarrow>
   login e now d b = (d, 401, Message ''Invalid email or password'')"
  by (simp add: login_def login_errors_def stringify_simps)

text \<open>A password that is not a string: \<^verbatim>\<open>bcrypt.compare\<close> throws once a user is found.\<close>

lemma login_password_not_a_string:
  "isEmail e (login_email b) \<Longrightarrow> stringify (login_password b) \<noteq> [] \<Longrightarrow>
   \<forall>pw. login_password b \<noteq> JStr pw \<Longrightarrow>
   User_findOne_email d (normalizeEmail e (login_email b)) = Some x \<Longrightarrow>
   login e now d b = (d, 500, Message ''Server error during login'')"
  by (cases "login_password b") (simp_all add: login_def login_errors_def)

text \<open>
  C2 (as amended). For every login request whose e-mail is well formed and whose password
  is a non-empty string: when no user has the e-mail, and when a user has it but the
  stored hash does not verify against the password, the answer is the same, 401
  "Invalid email or password", and the database is unchanged. A request that fails the
  validation, because its e-mail is not well formed or its password is empty, is
  answered 400 with the first validation message.
\<close>

theorem login_failures_identical:
  "(isEmail e (login_email b) \<and> login_password b = JStr pw \<and> pw \<noteq> [] \<longrightarrow>
      (User_findOne_email d (normalizeEmail e (login_email b)) = None \<longrightarrow>
         login e now d b = (d, 401, Message ''Invalid email or password''))
      \<and> (\<forall>x h. User_findOne_email d (normalizeEmail e (login_email b)) = Some x
                \<and> password x = Some h \<and> \<not> bcrypt_compare e pw h \<longrightarrow>
         login e now d b = (d, 401, Message ''Invalid email or password'')))
   \<and> (\<not> isEmail e (login_email b) \<or> stringify (login_password b) = [] \<longrightarrow>
      login e now d b = (d, 400, Message (hd (login_errors e b))))"
proof -
  have 1: "login e now d b = (d, 401, Message ''Invalid email or password'')"
    if "isEmail e (login_email b)" "login_password b = JStr pw" "pw \<noteq> []"
      "User_findOne_email d (normalizeEmail e (login_email b)) = None"
    using that by (intro login_unknown_email) (simp_all add: stringify_simps)
  have 2: "login e now d b = (d, 401, Message ''Invalid email or password'')"
    if "isEmail e (login_email b)" "login_password b = JStr pw" "pw \<noteq> []"
      "User_findOne_email d (normalizeEmail e (login_email b)) = Some x"
      "password x = Some h" "\<not> bcrypt_compare e pw h" for x h
    using that by (rule login_wrong_password)
  have 3: "login e now d b = (d, 400, Message (hd (login_errors e b)))"
    if "\<not> isEmail e (login_email b) \<or> stringify (login_password b) = []"
    using that by (intro login_validation_first) (auto simp: login_errors_empty)
  from 1 2 3 show ?thesis by blast
qed

theorem login_failures_identical_witness:
  "login test_env 5000 test_db \<lparr>login_email = ''nobody@example.com'', login_password = JStr ''secret1''\<rparr>
     = (test_db, 401, Message ''Invalid email or password'')
   \<and> login test_env 5000 test_db \<lparr>login_email = ''alice@example.com'', login_password = JStr ''guess''\<rparr>
     = (test_db, 401, Message ''Invalid email or password'')
   \<and> login test_env 5000 test_db \<lparr>login_email = ''alice@example.com'', login_password = JStr []\<rparr>
     = (test_db, 400, Message ''Password is required'')"
proof -
  define b1 where "b1 = \<lparr>login_email = ''nobody@example.com'', login_password = JStr ''secret1''\<rparr>"
  define b2 where "b2 = \<lparr>login_email = ''alice@example.com'', login_password = JStr ''guess''\<rparr>"
  define b3 where "b3 = \<lparr>login_email = ''alice@example.com'', login_password = JStr []\<rparr>"
  have v1: "isEmail test_env (login_email b1)" "login_password b1 = JStr ''secret1''" "''secret1'' \<noteq> []"
    and v2: "isEmail test_env (login_email b2)" "login_password b2 = JStr ''guess''" "''guess'' \<noteq> []"
    by (simp_all add: b1_def b2_def test_env_def)
  have n: "User_findOne_email test_db (normalizeEmail test_env (login_email b1)) = None"
    by (simp add: b1_def User_findOne_email_def email_setter_def test_env_def test_db_def alice_def bob_def
        toLowerCase_examples trim_examples)
  have a: "User_findOne_email test_db (normalizeEmail test_env (login_email b2)) = Some alice"
    by (simp add: b2_def User_findOne_email_def email_setter_def test_env_def test_db_def alice_def
        toLowerCase_examples trim_examples)
  have w: "password alice = Some ''salt$secret1''" "\<not> bcrypt_compare test_env ''guess'' ''salt$secret1''"
    by (simp_all add: alice_def test_env_def)
  have e3: "stringify (login_password b3) = []" "login_errors test_env b3 = [''Password is required'']"
    by (simp_all add: b3_def login_errors_def stringify_simps test_env_def)
  have r1: "login test_env 5000 test_db b1 = (test_db, 401, Message ''Invalid email or password'')"
    using login_failures_identical [of test_env b1 "''secret1''" test_db 5000] v1 n by blast
  have r2: "login test_env 5000 test_db b2 = (test_db, 401, Message ''Invalid email or password'')"
    using login_failures_identical [of test_env b2 "''guess''" test_db 5000] v2 a w by blast
  have r3: "login test_env 5000 test_db b3 = (test_db, 400, Message ''Password is required'')"
    using login_failures_identical [of test_env b3 "''x''" test_db 5000] e3 by simp
  from r1 r2 r3 show ?thesis unfolding b1_def b2_def b3_def by blast
qed

text \<open>
  C2 as stated fails: a login with an e-mail that no user has is answered 400 when the
  e-mail is not well formed, and a login with a user's e-mail and an empty password,
  which does not verify, is answered 400 as well. With the number 123456 as password,
  which passes the validation, a user's e-mail is answered 500 and an e-mail that no
  user has is answered 401.
\<close>

theorem login_validation_counterexample:
  "User_findOne_email test_db (normalizeEmail test_env ''nobody'') = None
   \<and> login test_env 5000 test_db \<lparr>login_email = ''nobody'', login_password = JStr ''secret1''\<rparr>
       = (test_db, 400, Message ''Please provide a valid email'')
   \<and> User_findOne_email test_db (normalizeEmail test_env ''alice@example.com'') = Some alice
   \<and> password alice = Some ''salt$secret1''
   \<and> \<not> bcrypt_compare test_env [] ''salt$secret1''
   \<and> login test_env 5000 test_db \<lparr>login_email = ''alice@example.com'', login_password = JStr []\<rparr>
       = (test_db, 400, Message ''Password is required'')
   \<and> login test_env 5000 test_db \<lparr>login_email = ''alice@example.com'', login_password = JNum 123456\<rparr>
       = (test_db, 500, Message ''Server error during login'')
   \<and> User_findOne_email test_db (normalizeEmail test_env ''nobody@example.com'') = None
   \<and> login test_env 5000 test_db \<lparr>login_email = ''nobody@example.com'', login_password = JNum 123456\<rparr>
       = (test_db, 401, Message ''Invalid email or password'')"
  by (simp add: login_def login_errors_def User_findOne_email_def email_setter_def test_env_def
      test_db_def alice_def bob_def toLowerCase_examples trim_examples stringify_simps stringify_number)

text \<open>
  C9. A login whose e-mail is not well formed is answered 400 "Please provide a valid
  email" whatever the password and the stored users are, before any lookup; a login with
  a well-formed e-mail that no user has, and a non-empty password, is answered 401
  "Invalid email or password". The two answers differ in status and message.
\<close>

theorem login_rejects_malformed_email_first:
  "(\<not> isEmail e (login_email b) \<longrightarrow> login e now d b = (d, 400, Message ''Please provide a valid email''))
   \<and> (isEmail e (login_email b) \<and> stringify (login_password b) \<noteq> []
        \<and> User_findOne_email d (normalizeEmail e (login_email b)) = None \<longrightarrow>
        login e now d b = (d, 401, Message ''Invalid email or password''))
   \<and> (400, Message ''Please provide a valid email'') \<noteq> (401, Message ''Invalid email or password'')"
  using login_unknown_email [of e b d now]
  by (auto simp: login_def login_errors_def)

theorem login_rejects_malformed_email_first_witness:
  "User_findOne_email test_db (normalizeEmail test_env ''nobody'') = None
   \<and> login test_env 5000 test_db \<lparr>login_email = ''nobody'', login_password = JStr ''secret1''\<rparr>
       = (test_db, 400, Message ''Please provide a valid email'')
   \<and> User_findOne_email test_db (normalizeEmail test_env ''nobody@example.com'') = None
   \<and> login test_env 5000 test_db \<lparr>login_email = ''nobody@example.com'', login_password = JStr ''secret1''\<rparr>
       = (test_db, 401, Message ''Invalid email or password'')"
proof -
  have n1: "User_findOne_email test_db (normalizeEmail test_env ''nobody'') = None"
    and n2: "User_findOne_email test_db (normalizeEmail test_env ''nobody@example.com'') = None"
    by (simp_all add: User_findOne_email_def email_setter_def test_env_def test_db_def alice_def bob_def
        toLowerCase_examples trim_examples)
  have i1: "\<not> isEmail test_env ''nobody''" and i2: "isEmail test_env ''nobody@example.com''"
    by (simp_all add: test_env_def)
  show ?thesis
    using login_rejects_malformed_email_first [of test_env "\<lparr>login_email = ''nobody'', login_password = JStr ''secret1''\<rparr>" 5000 test_db]
      login_rejects_malformed_email_first [of test_env "\<lparr>login_email = ''nobody@example.com'', login_password = JStr ''secret1''\<rparr>" 5000 test_db]
      n1 n2 i1 i2
    by (simp add: stringify_simps)
qed

section \<open>Registration\<close>







section \<open>Token validation\<close>

lemma split_str_no_separator: "c \<notin> set s \<Longrightarrow> split_str c s = [s]"
  by (induction s) auto

lemma bearer_token_of_header: "CHR '' '' \<notin> set t \<Longrightarrow> bearer_token (''Bearer '' @ t) = Some t"
  by (simp add: bearer_token_def index_opt_def split_str_no_separator)

lemma User_findById_id: "User_findById d i = Some x \<Longrightarrow> user_id x = i"
  by (auto simp: User_findById_def dest: find_some_holds)

lemma protect_token_failed:
  "startsWith h ''Bearer'' \<Longrightarrow> jwt_verify e now (bearer_token h) = Inl err \<Longrightarrow>
   protect e now d (Some h) = Inl (401, Message ''Not authorized, token failed'')"
  by (auto simp: protect_def startsWith_def)

lemma protect_verified:
  "startsWith h ''Bearer'' \<Longrightarrow> jwt_verify e now (bearer_token h) = Inr p \<Longrightarrow>
   protect e now d (Some h) =
     (case User_findById d (jwt_id p) of
        None \<Rightarrow> Inl (401, Message ''User not found'')
      | Some x \<Rightarrow> Inr (x\<lparr>password := None\<rparr>))"
  by (auto simp: protect_def startsWith_def select_minus_password_def split: option.splits)

text \<open>
  C3. For a header that starts with \<^verbatim>\<open>Bearer\<close>, \<^verbatim>\<open>protect\<close> answers 401 "Not
  authorized, token failed" when the header carries no token, when the token does not
  decode, when its signature does not verify under the server's key, and when its expiry
  second has been reached, whatever the signature is. For a token that verifies, it
  answers 401 "User not found" when no user has the id of the payload; otherwise it lets
  the request through with that user, whose password field is removed, and only then
  does the handler of the route run. When \<^verbatim>\<open>protect\<close> answers, the handler does not run
  and the database is unchanged.
\<close>

theorem protect_validates_token:
  assumes "startsWith h ''Bearer''"
  shows "(bearer_token h = None \<longrightarrow>
            protect e now d (Some h) = Inl (401, Message ''Not authorized, token failed''))
       \<and> (bearer_token h = Some t \<and> (t = [] \<or> jwt_decode e t = None \<or> \<not> jwt_signature_ok e t (JWT_SECRET e)) \<longrightarrow>
            protect e now d (Some h) = Inl (401, Message ''Not authorized, token failed''))
       \<and> (\<forall>p. bearer_token h = Some t \<and> jwt_decode e t = Some p \<and> jwt_exp p \<le> now div 1000 \<longrightarrow>
            protect e now d (Some h) = Inl (401, Message ''Not authorized, token failed''))
       \<and> (\<forall>p. bearer_token h = Some t \<and> t \<noteq> [] \<and> jwt_decode e t = Some p
              \<and> jwt_signature_ok e t (JWT_SECRET e) \<and> now div 1000 < jwt_exp p \<longrightarrow>
            (User_findById d (jwt_id p) = None \<longrightarrow>
               protect e now d (Some h) = Inl (401, Message ''User not found''))
            \<and> (\<forall>x. User_findById d (jwt_id p) = Some x \<longrightarrow>
                  protect e now d (Some h) = Inr (x\<lparr>password := None\<rparr>)
                  \<and> password (x\<lparr>password := None\<rparr>) = None
                  \<and> user_id x = jwt_id p
                  \<and> protected e now d (Some h) handler = handler (x\<lparr>password := None\<rparr>)))
       \<and> (\<forall>r. protect e now d (Some h) = Inl r \<longrightarrow> protected e now d (Some h) handler = (d, r))"
proof -
  have 1: "protect e now d (Some h) = Inl (401, Message ''Not authorized, token failed'')"
    if "bearer_token h = None"
    using assms that by (intro protect_token_failed [where err = JwtMissing]) (simp_all add: jwt_verify_def)
  have 2: "protect e now d (Some h) = Inl (401, Message ''Not authorized, token failed'')"
    if "bearer_token h = Some t" "t = [] \<or> jwt_decode e t = None \<or> \<not> jwt_signature_ok e t (JWT_SECRET e)"
  proof -
    from that have "\<exists>err. jwt_verify e now (bearer_token h) = Inl err"
      by (auto simp: jwt_verify_def split: option.splits)
    with assms show ?thesis using protect_token_failed by blast
  qed
  have 3: "protect e now d (Some h) = Inl (401, Message ''Not authorized, token failed'')"
    if "bearer_token h = Some t" "jwt_decode e t = Some p" "jwt_exp p \<le> now div 1000" for p
  proof -
    from that have "\<exists>err. jwt_verify e now (bearer_token h) = Inl err"
      by (auto simp: jwt_verify_def)
    with assms show ?thesis using protect_token_failed by blast
  qed
  have 4: "(User_findById d (jwt_id p) = None \<longrightarrow>
               protect e now d (Some h) = Inl (401, Message ''User not found''))
            \<and> (\<forall>x. User_findById d (jwt_id p) = Some x \<longrightarrow>
                  protect e now d (Some h) = Inr (x\<lparr>password := None\<rparr>)
                  \<and> password (x\<lparr>password := None\<rparr>) = None
                  \<and> user_id x = jwt_id p
                  \<and> protected e now d (Some h) handler = handler (x\<lparr>password := None\<rparr>))"
    if "bearer_token h = Some t" "t \<noteq> []" "jwt_decode e t = Some p"
      "jwt_signature_ok e t (JWT_SECRET e)" "now div 1000 < jwt_exp p" for p
  proof -
    from that have "jwt_verify e now (bearer_token h) = Inr p"
      by (simp add: jwt_verify_def)
    with assms have "protect e now d (Some h) =
       (case User_findById d (jwt_id p) of
          None \<Rightarrow> Inl (401, Message ''User not found'')
        | Some x \<Rightarrow> Inr (x\<lparr>password := None\<rparr>))"
      by (rule protect_verified)
    then show ?thesis
      by (auto simp: protected_def dest: User_findById_id)
  qed
  have 5: "\<forall>r. protect e now d (Some h) = Inl r \<longrightarrow> protected e now d (Some h) handler = (d, r)"
    by (simp add: protected_def)
  from 1 2 3 4 5 show ?thesis by blast
qed


theorem protect_validates_token_witness:
  "protect test_env 5000 test_db (Some ''Bearer'') = Inl (401, Message ''Not authorized, token failed'')
   \<and> protect test_env 5000 test_db (Some ''Bearer junk'') = Inl (401, Message ''Not authorized, token failed'')
   \<and> protect test_env 5000 test_db (Some ''Bearer tokForged'') = Inl (401, Message ''Not authorized, token failed'')
   \<and> protect test_env 5000 test_db (Some ''Bearer tokOld'') = Inl (401, Message ''Not authorized, token failed'')
   \<and> protect test_env 5000 test_db (Some ''Bearer tokGhost'') = Inl (401, Message ''User not found'')
   \<and> protect test_env 5000 test_db (Some ''Bearer tokA'') = Inr (alice\<lparr>password := None\<rparr>)
   \<and> protected test_env 5000 test_db (Some ''Bearer tokA'') (get_tasks test_db)
       = get_tasks test_db (alice\<lparr>password := None\<rparr>)
   \<and> protected test_env 5000 test_db (Some ''Bearer tokOld'') (get_tasks test_db)
       = (test_db, 401, Message ''Not authorized, token failed'')"
proof -
  have s: "startsWith ''Bearer'' ''Bearer''" "startsWith ''Bearer junk'' ''Bearer''"
    "startsWith ''Bearer tokForged'' ''Bearer''" "startsWith ''Bearer tokOld'' ''Bearer''"
    "startsWith ''Bearer tokGhost'' ''Bearer''" "startsWith ''Bearer tokA'' ''Bearer''"
    by (simp_all add: startsWith_def)
  have b0: "bearer_token ''Bearer'' = None"
    by (simp add: bearer_token_def index_opt_def)
  have b: "bearer_token ''Bearer junk'' = Some ''junk''"
    "bearer_token ''Bearer tokForged'' = Some ''tokForged''"
    "bearer_token ''Bearer tokOld'' = Some ''tokOld''"
    "bearer_token ''Bearer tokGhost'' = Some ''tokGhost''"
    "bearer_token ''Bearer tokA'' = Some ''tokA''"
    using bearer_token_of_header [of "''junk''"] bearer_token_of_header [of "''tokForged''"]
      bearer_token_of_header [of "''tokOld''"] bearer_token_of_header [of "''tokGhost''"]
      bearer_token_of_header [of "''tokA''"]
    by simp_all
  have j: "jwt_decode test_env ''junk'' = None"
    "\<not> jwt_signature_ok test_env ''tokForged'' (JWT_SECRET test_env)"
    by (simp_all add: test_env_def)
  have old: "jwt_decode test_env ''tokOld'' = Some \<lparr>jwt_id = 0, jwt_iat = 0, jwt_exp = 1\<rparr>"
    "jwt_signature_ok test_env ''tokOld'' (JWT_SECRET test_env)"
    "jwt_exp \<lparr>jwt_id = 0, jwt_iat = 0, jwt_exp = 1\<rparr> \<le> (5000::nat) div 1000"
    by (simp_all add: test_env_def)
  have ghost: "jwt_decode test_env ''tokGhost'' = Some \<lparr>jwt_id = 7, jwt_iat = 1, jwt_exp = 2592001\<rparr>"
    "jwt_signature_ok test_env ''tokGhost'' (JWT_SECRET test_env)"
    "(5000::nat) div 1000 < jwt_exp \<lparr>jwt_id = 7, jwt_iat = 1, jwt_exp = 2592001\<rparr>"
    "User_findById test_db (jwt_id \<lparr>jwt_id = 7, jwt_iat = 1, jwt_exp = 2592001\<rparr>) = None"
    by (simp_all add: test_env_def User_findById_def test_db_def alice_def bob_def)
  have ok: "jwt_decode test_env ''tokA'' = Some \<lparr>jwt_id = 0, jwt_iat = 1, jwt_exp = 2592001\<rparr>"
    "jwt_signature_ok test_env ''tokA'' (JWT_SECRET test_env)"
    "(5000::nat) div 1000 < jwt_exp \<lparr>jwt_id = 0, jwt_iat = 1, jwt_exp = 2592001\<rparr>"
    "User_findById test_db (jwt_id \<lparr>jwt_id = 0, jwt_iat = 1, jwt_exp = 2592001\<rparr>) = Some alice"
    by (simp_all add: test_env_def User_findById_def test_db_def alice_def)
  have 1: "protect test_env 5000 test_db (Some ''Bearer'') = Inl (401, Message ''Not authorized, token failed'')"
    using protect_validates_token [OF s(1), where e = test_env and now = 5000 and d = test_db] b0 by blast
  have 2: "protect test_env 5000 test_db (Some ''Bearer junk'') = Inl (401, Message ''Not authorized, token failed'')"
    using protect_validates_token [OF s(2), where t = "''junk''" and e = test_env and now = 5000 and d = test_db] b(1) j(1) by blast
  have 3: "protect test_env 5000 test_db (Some ''Bearer tokForged'') = Inl (401, Message ''Not authorized, token failed'')"
    using protect_validates_token [OF s(3), where t = "''tokForged''" and e = test_env and now = 5000 and d = test_db] b(2) j(2) by blast
  have 4: "protect test_env 5000 test_db (Some ''Bearer tokOld'') = Inl (401, Message ''Not authorized, token failed'')"
    using protect_validates_token [OF s(4), where t = "''tokOld''" and e = test_env and now = 5000 and d = test_db] b(3) old by blast
  have 5: "protect test_env 5000 test_db (Some ''Bearer tokGhost'') = Inl (401, Message ''User not found'')"
    using protect_validates_token [OF s(5), where t = "''tokGhost''" and e = test_env and now = 5000 and d = test_db] b(4) ghost by blast
  have 6: "protect test_env 5000 test_db (Some ''Bearer tokA'') = Inr (alice\<lparr>password := None\<rparr>)
      \<and> protected test_env 5000 test_db (Some ''Bearer tokA'') (get_tasks test_db)
           = get_tasks test_db (alice\<lparr>password := None\<rparr>)"
    using protect_validates_token [OF s(6), where t = "''tokA''" and e = test_env and now = 5000 and d = test_db and handler = "get_tasks test_db"] b(5) ok
    by blast
  have 7: "protected test_env 5000 test_db (Some ''Bearer tokOld'') (get_tasks test_db)
       = (test_db, 401, Message ''Not authorized, token failed'')"
    using protect_validates_token [OF s(4), where t = "''tokOld''" and e = test_env and now = 5000 and d = test_db and handler = "get_tasks test_db"] 4
    by blast
  from 1 2 3 4 5 6 7 show ?thesis by blast
qed

end
